theory Spec2Isabelle
  imports Complex_Main
begin

section \<open>The synthetic transaction generator of generate\_data.py\<close>

text \<open>
  The script is one module: configuration constants, three helpers (\<open>rand_ts\<close>,
  \<open>round_amount\<close>, \<open>add_txn\<close>) and four generation loops that append to the
  module-level list \<open>transactions\<close> and advance the module-level counter
  \<open>txn_counter\<close>. The model threads these through an explicit state. Python's
  \<open>random\<close> module and \<open>numpy.random\<close> are library code: each is modelled as a
  stream of raw draws (a function from positions to naturals, with a cursor), and every
  library call maps the next raw draw into the range the library documents, so that a
  statement quantified over all streams covers every sequence of values the libraries
  can return. Floats are modelled as exact rationals.
\<close>

subsection \<open>Strings: \<open>str\<close> and \<open>zfill\<close>\<close>

definition digit_char :: "nat \<Rightarrow> char" where
  "digit_char d = ''0123456789'' ! d"

function str :: "nat \<Rightarrow> string" where
  "str n = (if n < 10 then [digit_char n] else str (n div 10) @ [digit_char (n mod 10)])"
  by pat_completeness auto
termination
  by (relation "measure id") auto

declare str.simps [simp del]

definition zfill :: "nat \<Rightarrow> string \<Rightarrow> string" where
  \<comment> \<open>\<open>s.zfill(w)\<close> for a string of digits (no sign to keep in front).\<close>
  "zfill w s = replicate (w - length s) (CHR ''0'') @ s"

subsection \<open>Configuration\<close>

definition CHANNELS :: "string list" where
  "CHANNELS = [''UPI'', ''NEFT'', ''IMPS'', ''ATM'', ''RTGS'', ''Mobile Banking'', ''Net Banking'']"

text \<open>
  A \<open>datetime\<close> is kept as CPython keeps it for arithmetic: the proleptic Gregorian
  ordinal of its date and the seconds since midnight (the script never uses
  microseconds).
\<close>

record datetime =
  ordinal :: int
  seconds :: int

definition is_leap :: "int \<Rightarrow> bool" where
  "is_leap y = (y mod 4 = 0 \<and> (y mod 100 \<noteq> 0 \<or> y mod 400 = 0))"

definition days_before_year :: "int \<Rightarrow> int" where
  "days_before_year year = (let y = year - 1 in y * 365 + y div 4 - y div 100 + y div 400)"

definition days_in_month :: "int \<Rightarrow> nat \<Rightarrow> int" where
  "days_in_month year month =
     (if month = 2 \<and> is_leap year then 29
      else [31, 28, 31, 30, 31, 30, 31, 31, 30, 31, 30, 31] ! (month - 1))"

definition days_before_month :: "int \<Rightarrow> nat \<Rightarrow> int" where
  "days_before_month year month = sum_list (map (days_in_month year) [1..<month])"

definition ymd2ord :: "int \<Rightarrow> nat \<Rightarrow> int \<Rightarrow> int" where
  "ymd2ord year month day = days_before_year year + days_before_month year month + day"

definition datetime_ymd :: "int \<Rightarrow> nat \<Rightarrow> int \<Rightarrow> datetime" where
  \<comment> \<open>\<open>datetime(year, month, day)\<close>: midnight at the start of that date.\<close>
  "datetime_ymd year month day = \<lparr>ordinal = ymd2ord year month day, seconds = 0\<rparr>"

definition plus_timedelta :: "datetime \<Rightarrow> int \<Rightarrow> int \<Rightarrow> int \<Rightarrow> int \<Rightarrow> datetime" where
  \<comment> \<open>\<open>dt + timedelta(days=d, hours=h, minutes=m, seconds=s)\<close>, seconds carried into days.\<close>
  "plus_timedelta dt d h m s =
     (let t = seconds dt + h * 3600 + m * 60 + s
      in \<lparr>ordinal = ordinal dt + d + t div 86400, seconds = t mod 86400\<rparr>)"

definition minus_days :: "datetime \<Rightarrow> datetime \<Rightarrow> int" where
  \<comment> \<open>\<open>(a - b).days\<close>: the whole days of the difference, rounded down.\<close>
  "minus_days a b = ((ordinal a - ordinal b) * 86400 + (seconds a - seconds b)) div 86400"

definition hour_of :: "datetime \<Rightarrow> int" where
  "hour_of dt = seconds dt div 3600"

definition START_DATE :: datetime where
  "START_DATE = datetime_ymd 2024 1 1"

definition END_DATE :: datetime where
  "END_DATE = datetime_ymd 2024 6 30"

definition TOTAL_DAYS :: int where
  "TOTAL_DAYS = minus_days END_DATE START_DATE"

definition N_NORMAL :: nat where "N_NORMAL = 300"
definition N_MULE :: nat where "N_MULE = 30"
definition N_EXTERNAL :: nat where "N_EXTERNAL = 50"

definition NORMAL_IDS :: "string list" where
  "NORMAL_IDS = map (\<lambda>i. ''ACC'' @ zfill 5 (str i)) [1..<N_NORMAL + 1]"

definition MULE_IDS :: "string list" where
  "MULE_IDS = map (\<lambda>i. ''MUL'' @ zfill 5 (str i)) [1..<N_MULE + 1]"

definition EXTERNAL_IDS :: "string list" where
  "EXTERNAL_IDS = map (\<lambda>i. ''EXT'' @ zfill 5 (str i)) [1..<N_EXTERNAL + 1]"

definition ALL_ACCOUNT_IDS :: "string list" where
  "ALL_ACCOUNT_IDS = NORMAL_IDS @ MULE_IDS"

definition slice :: "nat \<Rightarrow> nat \<Rightarrow> 'a list \<Rightarrow> 'a list" where
  \<comment> \<open>\<open>xs[a:b]\<close> for non-negative bounds.\<close>
  "slice a b xs = take (b - a) (drop a xs)"

definition COMPLICIT_MULES :: "string list" where
  "COMPLICIT_MULES = slice 0 10 MULE_IDS"

definition RECRUITED_MULES :: "string list" where
  "RECRUITED_MULES = slice 10 20 MULE_IDS"

definition EXPLOITED_MULES :: "string list" where
  "EXPLOITED_MULES = slice 20 30 MULE_IDS"

subsection \<open>Transaction records and the generator state\<close>

record txn =
  txn_id :: string
  timestamp :: datetime
  account_id :: string
  txn_type :: string
  amount :: rat
  channel :: string
  counterparty :: string
  is_mule :: nat
  mule_type :: string

text \<open>
  The \<open>timestamp\<close> field holds the \<open>datetime\<close> whose rendering
  \<open>strftime("%Y-%m-%d %H:%M:%S")\<close> the script stores. The module-level variable
  \<open>amount\<close> is part of the state because the forwarding loop of the complicit mules
  reads it after the credit loop that assigned it has ended; it is unbound until its
  first assignment.
\<close>

record gen_state =
  py_rng :: "nat \<Rightarrow> nat"
  py_pos :: nat
  np_rng :: "nat \<Rightarrow> nat"
  np_pos :: nat
  transactions :: "txn list"
  txn_counter :: nat
  amount_var :: "rat option"

datatype error = ValueError | IndexError | NameError

type_synonym 'a gen = "gen_state \<Rightarrow> error + ('a \<times> gen_state)"

definition ret :: "'a \<Rightarrow> 'a gen" where
  "ret x s = Inr (x, s)"

definition raise :: "error \<Rightarrow> 'a gen" where
  "raise e s = Inl e"

definition bnd :: "'a gen \<Rightarrow> ('a \<Rightarrow> 'b gen) \<Rightarrow> 'b gen" where
  "bnd m f s = (case m s of Inl e \<Rightarrow> Inl e | Inr (x, s') \<Rightarrow> f x s')"

fun repeat :: "nat \<Rightarrow> unit gen \<Rightarrow> unit gen" where
  \<comment> \<open>\<open>for _ in range(n): body\<close>\<close>
  "repeat 0 body = ret ()"
| "repeat (Suc n) body = bnd body (\<lambda>_. repeat n body)"

fun for_each :: "'a list \<Rightarrow> ('a \<Rightarrow> unit gen) \<Rightarrow> unit gen" where
  \<comment> \<open>\<open>for x in xs: body(x)\<close>\<close>
  "for_each [] body = ret ()"
| "for_each (x # xs) body = bnd (body x) (\<lambda>_. for_each xs body)"

subsection \<open>The random sources\<close>

text \<open>
  \<open>random.random()\<close> returns a multiple of \<open>2\<^sup>-\<^sup>5\<^sup>3\<close> in \<open>[0, 1)\<close>;
  \<open>randint(a, b)\<close> an integer of \<open>[a, b]\<close>, raising \<open>ValueError\<close> on an empty
  range; \<open>choice\<close> an element of a non-empty sequence, raising \<open>IndexError\<close> on an
  empty one; \<open>sample(population, k)\<close> a list of \<open>k\<close> elements taken without
  replacement, raising \<open>ValueError\<close> when \<open>k\<close> exceeds the population;
  \<open>uniform(a, b)\<close> is \<open>a + (b - a) * random()\<close>. Which element of the range is
  returned is decided by the next raw draw.
\<close>

definition py_raw :: "nat gen" where
  "py_raw s = Inr (py_rng s (py_pos s), s\<lparr>py_pos := Suc (py_pos s)\<rparr>)"

definition np_raw :: "nat gen" where
  "np_raw s = Inr (np_rng s (np_pos s), s\<lparr>np_pos := Suc (np_pos s)\<rparr>)"

definition random_random :: "rat gen" where
  "random_random = bnd py_raw (\<lambda>r. ret (of_nat (r mod 2 ^ 53) / 2 ^ 53))"

definition random_randint :: "int \<Rightarrow> int \<Rightarrow> int gen" where
  "random_randint a b =
     (if b < a then raise ValueError
      else bnd py_raw (\<lambda>r. ret (a + int (r mod nat (b - a + 1)))))"

definition random_choice :: "'a list \<Rightarrow> 'a gen" where
  "random_choice xs =
     (if xs = [] then raise IndexError
      else bnd py_raw (\<lambda>r. ret (xs ! (r mod length xs))))"

fun pick :: "'a list \<Rightarrow> nat \<Rightarrow> 'a list gen" where
  "pick pool 0 = ret []"
| "pick pool (Suc k) =
     bnd py_raw (\<lambda>r.
       let j = r mod length pool in
       bnd (pick (take j pool @ drop (Suc j) pool) k) (\<lambda>rest.
       ret (pool ! j # rest)))"

definition random_sample :: "'a list \<Rightarrow> int \<Rightarrow> 'a list gen" where
  "random_sample population k =
     (if k < 0 \<or> int (length population) < k then raise ValueError
      else pick population (nat k))"

definition random_uniform :: "rat \<Rightarrow> rat \<Rightarrow> rat gen" where
  "random_uniform a b = bnd random_random (\<lambda>u. ret (a + (b - a) * u))"

definition np_random_lognormal :: "rat \<Rightarrow> rat \<Rightarrow> rat gen" where
  \<comment> \<open>A positive float; which one is decided by the next two raw draws of numpy's stream.\<close>
  "np_random_lognormal mean sigma =
     bnd np_raw (\<lambda>n. bnd np_raw (\<lambda>d. ret ((1 + of_nat n) / (1 + of_nat d))))"

subsection \<open>Rounding\<close>

definition py_round :: "rat \<Rightarrow> int" where
  \<comment> \<open>\<open>round(x)\<close>: to the nearest integer, a tie to the even one.\<close>
  "py_round x =
     (let f = \<lfloor>x\<rfloor>; d = x - of_int f
      in if d < 1 / 2 then f else if 1 / 2 < d then f + 1 else if even f then f else f + 1)"

definition py_round2 :: "rat \<Rightarrow> rat" where
  \<comment> \<open>\<open>round(x, 2)\<close>\<close>
  "py_round2 x = of_int (py_round (x * 100)) / 100"

subsection \<open>The helpers of the script\<close>

definition rand_ts :: "int \<Rightarrow> int option \<Rightarrow> bool \<Rightarrow> datetime gen" where
  "rand_ts start_day end_day night_bias =
     (let end_day = (case end_day of None \<Rightarrow> TOTAL_DAYS | Some e \<Rightarrow> e) in
      bnd (random_randint start_day end_day) (\<lambda>day.
      bnd (if night_bias then
             bnd random_random (\<lambda>u.
               if u < 70 / 100 then random_choice (map int ([23..<24] @ [0..<5]))
               else random_randint 8 22)
           else random_randint 8 22) (\<lambda>hour.
      bnd (random_randint 0 59) (\<lambda>minute.
      bnd (random_randint 0 59) (\<lambda>second.
      ret (plus_timedelta START_DATE day hour minute second))))))"

definition round_amount :: "rat \<Rightarrow> rat gen" where
  "round_amount a =
     bnd random_random (\<lambda>u.
       if u < 25 / 100 then ret (of_int (py_round (a / 1000) * 1000))
       else ret (py_round2 a))"

definition txn_id_of :: "nat \<Rightarrow> string" where
  "txn_id_of n = ''TXN'' @ zfill 8 (str n)"

definition add_txn ::
  "string \<Rightarrow> string \<Rightarrow> rat \<Rightarrow> string \<Rightarrow> string \<Rightarrow> datetime \<Rightarrow> nat \<Rightarrow> string \<Rightarrow> unit gen" where
  "add_txn acc ty amt ch cp ts im mt s =
     Inr ((), s\<lparr>transactions := transactions s @
               [\<lparr>txn_id = txn_id_of (txn_counter s), timestamp = ts, account_id = acc,
                 txn_type = ty, amount = amt, channel = ch, counterparty = cp,
                 is_mule = im, mule_type = mt\<rparr>],
             txn_counter := txn_counter s + 1\<rparr>)"

definition assign_amount :: "rat \<Rightarrow> unit gen" where
  \<comment> \<open>\<open>amount = v\<close>\<close>
  "assign_amount v s = Inr ((), s\<lparr>amount_var := Some v\<rparr>)"

definition read_amount :: "rat gen" where
  \<comment> \<open>a read of \<open>amount\<close>; \<open>NameError\<close> while it is unbound\<close>
  "read_amount s = (case amount_var s of None \<Rightarrow> Inl NameError | Some v \<Rightarrow> Inr (v, s))"

subsection \<open>Normal accounts\<close>

definition normal_txn :: "string \<Rightarrow> unit gen" where
  "normal_txn acc =
     bnd (rand_ts 0 None False) (\<lambda>ts.
     bnd (random_choice [''credit'', ''debit'']) (\<lambda>ty.
     bnd (random_choice (filter (\<lambda>a. a \<noteq> acc) ALL_ACCOUNT_IDS)) (\<lambda>cp.
     bnd (np_random_lognormal (95 / 10) 1) (\<lambda>x.
     bnd (assign_amount (py_round2 x)) (\<lambda>_.
     bnd (random_choice CHANNELS) (\<lambda>ch.
     add_txn acc ty (py_round2 x) ch cp ts 0 ''none''))))))"

definition normal_account :: "string \<Rightarrow> unit gen" where
  "normal_account acc =
     bnd (random_randint 200 600) (\<lambda>n_txns. repeat (nat n_txns) (normal_txn acc))"

subsection \<open>Complicit mules\<close>

definition complicit_credit :: "string \<Rightarrow> int \<Rightarrow> string \<Rightarrow> unit gen" where
  "complicit_credit acc start_day sender =
     bnd (rand_ts start_day None True) (\<lambda>ts.
     bnd (random_uniform 20000 200000) (\<lambda>x.
     bnd (round_amount x) (\<lambda>a.
     bnd (assign_amount a) (\<lambda>_.
     bnd (random_choice [''UPI'', ''NEFT'', ''IMPS'']) (\<lambda>ch.
     add_txn acc ''credit'' a ch sender ts 1 ''complicit'')))))"

definition complicit_debit :: "string \<Rightarrow> int \<Rightarrow> string list \<Rightarrow> unit gen" where
  "complicit_debit acc start_day criminal_receivers =
     bnd (rand_ts start_day None True) (\<lambda>ts_forward.
     bnd read_amount (\<lambda>a.
     bnd (random_uniform (92 / 100) (99 / 100)) (\<lambda>f.
     bnd (round_amount (a * f)) (\<lambda>amount_out.
     bnd (random_choice criminal_receivers) (\<lambda>receiver.
     bnd (random_choice [''NEFT'', ''RTGS'', ''Net Banking'']) (\<lambda>out_channel.
     add_txn acc ''debit'' amount_out out_channel receiver ts_forward 1 ''complicit''))))))"

definition complicit_sender :: "string \<Rightarrow> int \<Rightarrow> string list \<Rightarrow> string \<Rightarrow> unit gen" where
  "complicit_sender acc start_day criminal_receivers sender =
     bnd (random_randint 3 8) (\<lambda>n_credits.
     bnd (repeat (nat n_credits) (complicit_credit acc start_day sender)) (\<lambda>_.
     repeat (nat n_credits) (complicit_debit acc start_day criminal_receivers)))"

definition complicit_mule :: "string \<Rightarrow> unit gen" where
  "complicit_mule acc =
     bnd (random_randint 1 2) (\<lambda>k.
     bnd (random_sample (slice 0 20 EXTERNAL_IDS) k) (\<lambda>criminal_receivers.
     bnd (random_randint 8 20) (\<lambda>k'.
     bnd (random_sample NORMAL_IDS k') (\<lambda>victim_senders.
     for_each victim_senders (complicit_sender acc (TOTAL_DAYS - 60) criminal_receivers)))))"

subsection \<open>Recruited mules\<close>

definition recruited_phase1_txn :: "string \<Rightarrow> unit gen" where
  "recruited_phase1_txn acc =
     bnd (rand_ts 0 (Some 60) False) (\<lambda>ts.
     bnd (random_choice [''credit'', ''debit'']) (\<lambda>ty.
     bnd (random_choice NORMAL_IDS) (\<lambda>cp.
     bnd (np_random_lognormal 9 (8 / 10)) (\<lambda>x.
     bnd (assign_amount (py_round2 x)) (\<lambda>_.
     bnd (random_choice CHANNELS) (\<lambda>ch.
     add_txn acc ty (py_round2 x) ch cp ts 0 ''recruited''))))))"

definition recruited_phase2_txn :: "string \<Rightarrow> string list \<Rightarrow> unit gen" where
  "recruited_phase2_txn acc criminal_handlers =
     bnd (rand_ts 61 None True) (\<lambda>ts.
     bnd (random_uniform 15000 150000) (\<lambda>x.
     bnd (round_amount x) (\<lambda>a.
     bnd (assign_amount a) (\<lambda>_.
     bnd random_random (\<lambda>u.
     if u < 55 / 100 then
       bnd (random_choice criminal_handlers) (\<lambda>sender.
       bnd (random_choice [''UPI'', ''IMPS'']) (\<lambda>ch.
       add_txn acc ''credit'' a ch sender ts 1 ''recruited''))
     else
       bnd (random_choice (MULE_IDS @ slice 0 15 EXTERNAL_IDS)) (\<lambda>receiver.
       bnd (random_uniform (88 / 100) (98 / 100)) (\<lambda>f.
       bnd (random_choice [''NEFT'', ''ATM'', ''Net Banking'']) (\<lambda>ch.
       add_txn acc ''debit'' (a * f) ch receiver ts 1 ''recruited''))))))))"

definition recruited_mule :: "string \<Rightarrow> unit gen" where
  "recruited_mule acc =
     bnd (random_randint 1 3) (\<lambda>k.
     bnd (random_sample (slice 20 35 EXTERNAL_IDS) k) (\<lambda>criminal_handlers.
     bnd (random_randint 50 120) (\<lambda>n1.
     bnd (repeat (nat n1) (recruited_phase1_txn acc)) (\<lambda>_.
     bnd (random_randint 80 200) (\<lambda>n2.
     repeat (nat n2) (recruited_phase2_txn acc criminal_handlers))))))"

subsection \<open>Exploited mules\<close>

definition exploited_phase1_txn :: "string \<Rightarrow> unit gen" where
  "exploited_phase1_txn acc =
     bnd (rand_ts 0 (Some 90) False) (\<lambda>ts.
     bnd (random_choice [''credit'', ''debit'']) (\<lambda>ty.
     bnd (random_choice NORMAL_IDS) (\<lambda>cp.
     bnd (np_random_lognormal (85 / 10) (7 / 10)) (\<lambda>x.
     bnd (assign_amount (py_round2 x)) (\<lambda>_.
     bnd (random_choice [''UPI'', ''Mobile Banking'']) (\<lambda>ch.
     add_txn acc ty (py_round2 x) ch cp ts 0 ''exploited''))))))"

definition exploited_phase2_txn :: "string \<Rightarrow> string list \<Rightarrow> int \<Rightarrow> unit gen" where
  "exploited_phase2_txn acc attacker_destinations takeover_day =
     bnd (rand_ts takeover_day (Some (takeover_day + 3)) True) (\<lambda>ts.
     bnd (random_uniform 50000 500000) (\<lambda>x.
     bnd (round_amount x) (\<lambda>a.
     bnd (assign_amount a) (\<lambda>_.
     bnd (random_choice attacker_destinations) (\<lambda>dest.
     bnd (random_choice [''RTGS'', ''Net Banking'', ''NEFT'']) (\<lambda>ch.
     add_txn acc ''debit'' a ch dest ts 1 ''exploited''))))))"

definition exploited_mule :: "string \<Rightarrow> unit gen" where
  "exploited_mule acc =
     bnd (random_randint 2 4) (\<lambda>k.
     bnd (random_sample (drop 35 EXTERNAL_IDS) k) (\<lambda>attacker_destinations.
     bnd (random_randint 100 250) (\<lambda>n1.
     bnd (repeat (nat n1) (exploited_phase1_txn acc)) (\<lambda>_.
     bnd (random_randint 91 120) (\<lambda>takeover_day.
     bnd (random_randint 10 30) (\<lambda>n2.
     repeat (nat n2) (exploited_phase2_txn acc attacker_destinations takeover_day)))))))"

subsection \<open>The whole run\<close>

definition main :: "unit gen" where
  "main =
     bnd (for_each NORMAL_IDS normal_account) (\<lambda>_.
     bnd (for_each COMPLICIT_MULES complicit_mule) (\<lambda>_.
     bnd (for_each RECRUITED_MULES recruited_mule) (\<lambda>_.
     for_each EXPLOITED_MULES exploited_mule)))"

definition init_state :: "(nat \<Rightarrow> nat) \<Rightarrow> (nat \<Rightarrow> nat) \<Rightarrow> gen_state" where
  \<comment> \<open>The module's globals before the first loop; \<open>py\<close> and \<open>np\<close> are the streams that
      \<open>random.seed(42)\<close> and \<open>np.random.seed(42)\<close> fix.\<close>
  "init_state py np =
     \<lparr>py_rng = py, py_pos = 0, np_rng = np, np_pos = 0,
      transactions = [], txn_counter = 1, amount_var = None\<rparr>"

definition emitted :: "error + (unit \<times> gen_state) \<Rightarrow> txn list" where
  \<comment> \<open>the list \<open>transactions\<close> a computation leaves, empty if it raised\<close>
  "emitted r = (case r of Inl e \<Rightarrow> [] | Inr (u, s) \<Rightarrow> transactions s)"

definition run :: "(nat \<Rightarrow> nat) \<Rightarrow> (nat \<Rightarrow> nat) \<Rightarrow> error + txn list" where
  \<comment> \<open>The rows handed to the data frame, in emission order; sorting them and writing the
      file reorder and render these rows and add or drop none.\<close>
  "run py np = (case main (init_state py np) of Inl e \<Rightarrow> Inl e | Inr (u, s) \<Rightarrow> Inr (transactions s))"

definition tape :: "nat list \<Rightarrow> nat \<Rightarrow> nat" where
  \<comment> \<open>a stream given by its first draws, continued with zeros\<close>
  "tape xs i = (if i < length xs then xs ! i else 0)"

subsection \<open>Predicates used in the statements\<close>

text \<open>
  \<open>rng_only s s'\<close>: a step that only advanced a random stream. \<open>appended s s' ts\<close>:
  a computation that appended the rows \<open>ts\<close>, numbered from the counter of \<open>s\<close> onwards.
  \<open>ts_in lo hi night dt\<close>: the date of \<open>dt\<close> lies \<open>lo\<close> to \<open>hi\<close> days after
  \<open>START_DATE\<close>, and its hour is one \<open>rand_ts\<close> can draw.
\<close>

definition rng_only :: "gen_state \<Rightarrow> gen_state \<Rightarrow> bool" where
  "rng_only s s' = (transactions s' = transactions s \<and> txn_counter s' = txn_counter s \<and>
     amount_var s' = amount_var s)"

definition appended :: "gen_state \<Rightarrow> gen_state \<Rightarrow> txn list \<Rightarrow> bool" where
  "appended s s' ts = (transactions s' = transactions s @ ts \<and>
     txn_counter s' = txn_counter s + length ts \<and>
     map txn_id ts = map txn_id_of [txn_counter s..<txn_counter s + length ts])"

definition hour_ok :: "bool \<Rightarrow> int \<Rightarrow> bool" where
  "hour_ok night h = ((8 \<le> h \<and> h \<le> 22) \<or> (night \<and> (h = 23 \<or> (0 \<le> h \<and> h \<le> 4))))"

definition ts_in :: "int \<Rightarrow> int \<Rightarrow> bool \<Rightarrow> datetime \<Rightarrow> bool" where
  "ts_in lo hi night dt =
     (lo \<le> ordinal dt - ordinal START_DATE \<and> ordinal dt - ordinal START_DATE \<le> hi \<and>
      0 \<le> seconds dt \<and> seconds dt < 86400 \<and> hour_ok night (hour_of dt))"

definition labelled :: "string \<Rightarrow> nat \<Rightarrow> string \<Rightarrow> int \<Rightarrow> int \<Rightarrow> bool \<Rightarrow> txn \<Rightarrow> bool" where
  "labelled acc im mt lo hi night t =
     (account_id t = acc \<and> is_mule t = im \<and> mule_type t = mt \<and>
      ts_in lo hi night (timestamp t))"

definition skim_of :: "rat \<Rightarrow> rat \<Rightarrow> bool" where
  "skim_of a d = (\<exists>f. 92 / 100 \<le> f \<and> f \<le> 99 / 100 \<and>
     (d = of_int (py_round (a * f / 1000) * 1000) \<or> d = py_round2 (a * f)))"

definition sender_batch :: "string \<Rightarrow> int \<Rightarrow> string list \<Rightarrow> string \<Rightarrow> txn list \<Rightarrow> txn list \<Rightarrow> bool" where
  "sender_batch acc sd receivers sender cs ds =
     (length cs = length ds \<and> 3 \<le> length cs \<and> length cs \<le> 8 \<and>
      list_all (\<lambda>t. labelled acc 1 ''complicit'' sd TOTAL_DAYS True t \<and>
                    txn_type t = ''credit'' \<and> counterparty t = sender) cs \<and>
      list_all (\<lambda>t. labelled acc 1 ''complicit'' sd TOTAL_DAYS True t \<and>
                    txn_type t = ''debit'' \<and> counterparty t \<in> set receivers \<and>
                    skim_of (amount (last cs)) (amount t)) ds)"

definition row_ok :: "txn \<Rightarrow> bool" where
  "row_ok t =
     ((account_id t \<in> set NORMAL_IDS \<and> labelled (account_id t) 0 ''none'' 0 TOTAL_DAYS False t) \<or>
      (account_id t \<in> set COMPLICIT_MULES \<and>
         labelled (account_id t) 1 ''complicit'' (TOTAL_DAYS - 60) TOTAL_DAYS True t) \<or>
      (account_id t \<in> set RECRUITED_MULES \<and> labelled (account_id t) 0 ''recruited'' 0 60 False t) \<or>
      (account_id t \<in> set RECRUITED_MULES \<and>
         labelled (account_id t) 1 ''recruited'' 61 TOTAL_DAYS True t) \<or>
      (account_id t \<in> set EXPLOITED_MULES \<and> labelled (account_id t) 0 ''exploited'' 0 90 False t) \<or>
      (account_id t \<in> set EXPLOITED_MULES \<and> labelled (account_id t) 1 ''exploited'' 91 123 True t))"

definition account_batches ::
  "string \<Rightarrow> string list \<Rightarrow> string list \<Rightarrow> txn list list \<Rightarrow> bool" where
  "account_batches acc receivers senders bs =
     (receivers \<noteq> [] \<and> length receivers \<le> 2 \<and> set receivers \<subseteq> set (slice 0 20 EXTERNAL_IDS) \<and>
      8 \<le> length senders \<and> length senders \<le> 20 \<and> set senders \<subseteq> set NORMAL_IDS \<and>
      list_all2 (\<lambda>sender b. \<exists>cs ds. b = cs @ ds \<and>
         sender_batch acc (TOTAL_DAYS - 60) receivers sender cs ds) senders bs)"

definition first_row :: txn where
  "first_row = \<lparr>txn_id = ''TXN00000001'', timestamp = \<lparr>ordinal = 738886, seconds = 28800\<rparr>,
     account_id = ''ACC00001'', txn_type = ''credit'', amount = 1, channel = ''UPI'',
     counterparty = ''ACC00002'', is_mule = 0, mule_type = ''none''\<rparr>"

definition dt_le :: "datetime \<Rightarrow> datetime \<Rightarrow> bool" where
  "dt_le a b = (ordinal a < ordinal b \<or> (ordinal a = ordinal b \<and> seconds a \<le> seconds b))"

definition day_of :: "txn \<Rightarrow> int" where
  "day_of t = ordinal (timestamp t) - ordinal START_DATE"

definition mule_rule_row :: "txn \<Rightarrow> bool" where
  "mule_rule_row t =
     (account_id t \<in> set COMPLICIT_MULES \<or>
      (account_id t \<in> set RECRUITED_MULES \<and> 61 \<le> day_of t) \<or>
      (account_id t \<in> set EXPLOITED_MULES \<and> 91 \<le> day_of t))"

definition history_row :: "txn \<Rightarrow> bool" where
  "history_row t =
     ((account_id t \<in> set RECRUITED_MULES \<and> day_of t \<le> 60) \<or>
      (account_id t \<in> set EXPLOITED_MULES \<and> day_of t \<le> 90))"

definition digit_val :: "char \<Rightarrow> nat" where
  "digit_val c = of_char c - 48"

definition seq_no :: "string \<Rightarrow> nat" where
  "seq_no s = foldl (\<lambda>n c. 10 * n + digit_val c) 0 (drop 3 s)"

definition late_row :: txn where
  "late_row = \<lparr>txn_id = ''TXN00000001'', timestamp = \<lparr>ordinal = 739067, seconds = 28800\<rparr>,
     account_id = ''ACC00001'', txn_type = ''credit'', amount = 1, channel = ''UPI'',
     counterparty = ''ACC00002'', is_mule = 0, mule_type = ''none''\<rparr>"

definition recruited_debit_example :: "txn list" where
  "recruited_debit_example = emitted (recruited_phase2_txn ''MUL00011'' [''EXT00021'']
     (init_state (tape [0, 0, 0, 0, 0, 2 ^ 43, 2 ^ 52, 2 ^ 53 - 1, 10, 2 ^ 52]) (tape [])))"

definition two_places :: "rat \<Rightarrow> bool" where
  "two_places x = (py_round2 x = x)"

definition thousands :: "rat \<Rightarrow> bool" where
  "thousands x = (of_int (py_round (x / 1000) * 1000) = x)"

definition paired_batch :: "string \<Rightarrow> string list \<Rightarrow> string \<Rightarrow> txn list \<Rightarrow> bool" where
  "paired_batch acc receivers sender b =
     (\<exists>cs ds. b = cs @ ds \<and> length ds = length cs \<and> 3 \<le> length cs \<and> length cs \<le> 8 \<and>
        list_all (\<lambda>t. account_id t = acc \<and> txn_type t = ''credit'' \<and>
                      counterparty t = sender) cs \<and>
        list_all (\<lambda>t. account_id t = acc \<and> txn_type t = ''debit'' \<and>
                      counterparty t \<in> set receivers) ds)"








section \<open>Properties\<close>

subsection \<open>The random sources return values of their ranges\<close>

lemma rng_only_refl: "rng_only s s"
  by (simp add: rng_only_def)

lemma rng_only_trans: "rng_only s s1 \<Longrightarrow> rng_only s1 s2 \<Longrightarrow> rng_only s s2"
  by (simp add: rng_only_def)

lemma py_raw_ok: "\<exists>r s'. py_raw s = Inr (r, s') \<and> rng_only s s'"
  by (simp add: py_raw_def rng_only_def)

lemma np_raw_ok: "\<exists>r s'. np_raw s = Inr (r, s') \<and> rng_only s s'"
  by (simp add: np_raw_def rng_only_def)

lemma random_random_ok:
  "\<exists>u s'. random_random s = Inr (u, s') \<and> 0 \<le> u \<and> u < 1 \<and> rng_only s s'"
proof -
  obtain r s1 where r: "py_raw s = Inr (r, s1)" "rng_only s s1"
    using py_raw_ok by blast
  define u :: rat where "u = of_nat (r mod 2 ^ 53) / 2 ^ 53"
  have run: "random_random s = Inr (u, s1)"
    by (simp add: random_random_def bnd_def r(1) ret_def u_def)
  have "r mod 2 ^ 53 < 2 ^ 53" by simp
  then have "(of_nat (r mod 2 ^ 53) :: rat) < of_nat (2 ^ 53)"
    unfolding of_nat_less_iff .
  then have "u < 1" by (simp add: u_def)
  moreover have "0 \<le> u" by (simp add: u_def)
  ultimately show ?thesis using run r(2) by blast
qed

lemma random_randint_ok:
  assumes "a \<le> b"
  shows "\<exists>x s'. random_randint a b s = Inr (x, s') \<and> a \<le> x \<and> x \<le> b \<and> rng_only s s'"
proof -
  obtain r s1 where r: "py_raw s = Inr (r, s1)" "rng_only s s1"
    using py_raw_ok by blast
  have "r mod nat (b - a + 1) < nat (b - a + 1)" using assms by simp
  then have "a + int (r mod nat (b - a + 1)) \<le> b" using assms by linarith
  then show ?thesis using assms
    by (simp add: random_randint_def bnd_def r(1) ret_def r(2))
qed

lemma random_choice_ok:
  assumes "xs \<noteq> []"
  shows "\<exists>x s'. random_choice xs s = Inr (x, s') \<and> x \<in> set xs \<and> rng_only s s'"
proof -
  obtain r s1 where r: "py_raw s = Inr (r, s1)" "rng_only s s1"
    using py_raw_ok by blast
  have "r mod length xs < length xs" using assms by simp
  then have "xs ! (r mod length xs) \<in> set xs" by (rule nth_mem)
  then show ?thesis using assms
    by (simp add: random_choice_def bnd_def r(1) ret_def r(2))
qed

lemma pick_ok:
  "k \<le> length pool \<Longrightarrow>
   \<exists>ys s'. pick pool k s = Inr (ys, s') \<and> length ys = k \<and> set ys \<subseteq> set pool \<and> rng_only s s'"
proof (induction k arbitrary: pool s)
  case 0
  then show ?case by (simp add: ret_def rng_only_refl)
next
  case (Suc k)
  obtain r s1 where r: "py_raw s = Inr (r, s1)" "rng_only s s1"
    using py_raw_ok by blast
  define j where "j = r mod length pool"
  define pool' where "pool' = take j pool @ drop (Suc j) pool"
  have "0 < length pool" using Suc.prems by linarith
  then have j: "j < length pool" by (simp add: j_def)
  then have len: "k \<le> length pool'" using Suc.prems by (simp add: pool'_def)
  have sub: "set pool' \<subseteq> set pool"
    using set_take_subset[of j pool] set_drop_subset[of "Suc j" pool] by (auto simp: pool'_def)
  obtain ys s2 where ys: "pick pool' k s1 = Inr (ys, s2)" "length ys = k"
      "set ys \<subseteq> set pool'" "rng_only s1 s2"
    using Suc.IH[OF len] by blast
  have "pick pool (Suc k) s = Inr (pool ! j # ys, s2)"
    by (simp add: bnd_def r(1) Let_def j_def[symmetric] pool'_def[symmetric]
        ys(1) ret_def)
  moreover have "pool ! j \<in> set pool" using j by simp
  ultimately show ?case
    using ys sub rng_only_trans[OF r(2) ys(4)] by auto
qed

lemma random_sample_ok:
  assumes "0 \<le> k" "k \<le> int (length pop)"
  shows "\<exists>ys s'. random_sample pop k s = Inr (ys, s') \<and> int (length ys) = k \<and>
           set ys \<subseteq> set pop \<and> rng_only s s'"
proof -
  have "nat k \<le> length pop" using assms by simp
  from pick_ok[OF this, of s] obtain ys s' where
    "pick pop (nat k) s = Inr (ys, s')" "length ys = nat k" "set ys \<subseteq> set pop" "rng_only s s'"
    by blast
  then show ?thesis using assms by (auto simp: random_sample_def)
qed

lemma random_uniform_ok:
  assumes "a \<le> b"
  shows "\<exists>x s'. random_uniform a b s = Inr (x, s') \<and> a \<le> x \<and> x \<le> b \<and> rng_only s s'"
proof -
  obtain u s1 where u: "random_random s = Inr (u, s1)" "0 \<le> u" "u < 1" "rng_only s s1"
    using random_random_ok by blast
  have "0 \<le> (b - a) * u" using assms u(2) by simp
  moreover have "(b - a) * u \<le> (b - a) * 1"
    using assms u(3) by (intro mult_left_mono) auto
  ultimately show ?thesis
    by (simp add: random_uniform_def bnd_def u(1) ret_def u(4))
qed

lemma np_random_lognormal_ok:
  "\<exists>x s'. np_random_lognormal m sg s = Inr (x, s') \<and> 0 < x \<and> rng_only s s'"
proof -
  obtain n s1 where n: "np_raw s = Inr (n, s1)" "rng_only s s1"
    using np_raw_ok by blast
  obtain d s2 where d: "np_raw s1 = Inr (d, s2)" "rng_only s1 s2"
    using np_raw_ok by blast
  have "0 < (1 + of_nat n) / (1 + of_nat d :: rat)"
    by (simp add: add_pos_nonneg)
  then show ?thesis
    by (simp add: np_random_lognormal_def bnd_def n(1) d(1) ret_def
        rng_only_trans[OF n(2) d(2)])
qed

lemma round_amount_ok:
  "\<exists>y s'. round_amount a s = Inr (y, s') \<and>
     (y = of_int (py_round (a / 1000) * 1000) \<or> y = py_round2 a) \<and> rng_only s s'"
proof -
  obtain u s1 where u: "random_random s = Inr (u, s1)" "rng_only s s1"
    using random_random_ok by blast
  show ?thesis
    by (simp add: round_amount_def bnd_def u(1) ret_def u(2))
qed

lemma TOTAL_DAYS_eq: "TOTAL_DAYS = 181"
  by code_simp

lemma appended_refl: "appended s s []"
  by (simp add: appended_def)

lemma appended_trans:
  assumes "appended s s1 xs" "appended s1 s2 ys"
  shows "appended s s2 (xs @ ys)"
proof -
  define c where "c = txn_counter s"
  have "[c..<c + (length xs + length ys)] = [c..<c + length xs] @ [c + length xs..<c + length xs + length ys]"
    using upt_add_eq_append[of c "c + length xs" "length ys"] by (simp add: add.assoc)
  then show ?thesis
    using assms by (simp add: appended_def c_def add.assoc)
qed

lemma rng_only_appended: "rng_only s s1 \<Longrightarrow> appended s1 s2 ts \<Longrightarrow> appended s s2 ts"
  by (simp add: rng_only_def appended_def)

lemma appended_rng_only: "appended s s1 ts \<Longrightarrow> rng_only s1 s2 \<Longrightarrow> appended s s2 ts"
  by (simp add: rng_only_def appended_def)

lemma plus_timedelta_START:
  assumes "0 \<le> h" "h \<le> 23" "0 \<le> m" "m \<le> 59" "0 \<le> sec" "sec \<le> 59"
  shows "ordinal (plus_timedelta START_DATE d h m sec) = ordinal START_DATE + d"
    and "seconds (plus_timedelta START_DATE d h m sec) = h * 3600 + m * 60 + sec"
    and "hour_of (plus_timedelta START_DATE d h m sec) = h"
proof -
  define t where "t = h * 3600 + m * 60 + sec"
  have t: "0 \<le> t" "t < 86400" using assms by (simp_all add: t_def)
  have s0: "seconds START_DATE = 0" by (simp add: START_DATE_def datetime_ymd_def)
  have dv: "t div 86400 = 0" and md: "t mod 86400 = t" using t by simp_all
  show "ordinal (plus_timedelta START_DATE d h m sec) = ordinal START_DATE + d"
    by (simp add: plus_timedelta_def s0 Let_def t_def[symmetric] dv)
  show sec: "seconds (plus_timedelta START_DATE d h m sec) = h * 3600 + m * 60 + sec"
    by (simp add: plus_timedelta_def s0 Let_def t_def[symmetric] md)
  have "(h * 3600 + (m * 60 + sec)) div 3600 = h"
    using assms by (simp add: div_pos_pos_trivial)
  then show "hour_of (plus_timedelta START_DATE d h m sec) = h"
    by (simp add: hour_of_def sec add.assoc)
qed

lemma hour_draw_ok:
  "\<exists>h s'. (if night then bnd random_random (\<lambda>u.
               if u < 70 / 100 then random_choice (map int ([23..<24] @ [0..<5]))
               else random_randint 8 22)
           else random_randint 8 22) s = Inr (h, s') \<and> hour_ok night h \<and> rng_only s s'"
proof (cases night)
  case False
  obtain h s' where "random_randint 8 22 s = Inr (h, s')" "8 \<le> h" "h \<le> 22" "rng_only s s'"
    using random_randint_ok[of 8 22 s] by auto
  then show ?thesis using False by (auto simp: hour_ok_def)
next
  case True
  obtain u s1 where u: "random_random s = Inr (u, s1)" "rng_only s s1"
    using random_random_ok by blast
  show ?thesis
  proof (cases "u < 70 / 100")
    case lt: True
    obtain h s' where h: "random_choice (map int ([23..<24] @ [0..<5])) s1 = Inr (h, s')"
        "h \<in> set (map int ([23..<24] @ [0..<5]))" "rng_only s1 s'"
      using random_choice_ok[of "map int ([23..<24] @ [0..<5])" s1] by auto
    have "hour_ok True h" using h(2) by (auto simp: hour_ok_def)
    then show ?thesis
      using True lt h(1) rng_only_trans[OF u(2) h(3)] by (simp add: bnd_def u(1))
  next
    case ge: False
    obtain h s' where h: "random_randint 8 22 s1 = Inr (h, s')" "8 \<le> h" "h \<le> 22"
        "rng_only s1 s'"
      using random_randint_ok[of 8 22 s1] by auto
    have "hour_ok True h" using h(2,3) by (simp add: hour_ok_def)
    then show ?thesis
      using True ge h(1) rng_only_trans[OF u(2) h(4)] by (simp add: bnd_def u(1))
  qed
qed

lemma rand_ts_ok:
  assumes "lo \<le> hi" and "(case e of None \<Rightarrow> TOTAL_DAYS | Some x \<Rightarrow> x) = hi"
  shows "\<exists>ts s'. rand_ts lo e night s = Inr (ts, s') \<and> ts_in lo hi night ts \<and> rng_only s s'"
proof -
  obtain d s1 where d: "random_randint lo hi s = Inr (d, s1)" "lo \<le> d" "d \<le> hi"
      "rng_only s s1"
    using random_randint_ok[OF assms(1)] by blast
  obtain h s2 where h: "(if night then bnd random_random (\<lambda>u.
               if u < 70 / 100 then random_choice (map int ([23..<24] @ [0..<5]))
               else random_randint 8 22)
           else random_randint 8 22) s1 = Inr (h, s2)" "hour_ok night h" "rng_only s1 s2"
    using hour_draw_ok by blast
  obtain m s3 where m: "random_randint 0 59 s2 = Inr (m, s3)" "0 \<le> m" "m \<le> 59"
      "rng_only s2 s3"
    using random_randint_ok[of 0 59 s2] by auto
  obtain sec s4 where sec: "random_randint 0 59 s3 = Inr (sec, s4)" "0 \<le> sec" "sec \<le> 59"
      "rng_only s3 s4"
    using random_randint_ok[of 0 59 s3] by auto
  have hb: "0 \<le> h" "h \<le> 23" using h(2) by (auto simp: hour_ok_def)
  note pt = plus_timedelta_START[OF hb m(2,3) sec(2,3), of d]
  have run: "rand_ts lo e night s = Inr (plus_timedelta START_DATE d h m sec, s4)"
    unfolding rand_ts_def assms(2) Let_def
    by (simp add: bnd_def[of "random_randint lo hi"] d(1) bnd_def[of "If night _ _"] h(1)
        bnd_def[of "random_randint 0 59"] m(1) sec(1) ret_def)
  have "ts_in lo hi night (plus_timedelta START_DATE d h m sec)"
    using d(2,3) h(2) hb m(2,3) sec(2,3) by (simp add: ts_in_def pt)
  moreover have "rng_only s s4"
    using d(4) h(3) m(4) sec(4) by (blast intro: rng_only_trans)
  ultimately show ?thesis using run by blast
qed

lemma str_digit: "n < 10 \<Longrightarrow> str n = [digit_char n]"
  by (simp add: str.simps[of n])

lemma acc1_mem: "''ACC00001'' \<in> set NORMAL_IDS"
proof -
  have "''ACC'' @ zfill 5 (str 1) = ''ACC00001''"
    by code_simp
  moreover have "(1::nat) \<in> set [1..<N_NORMAL + 1]" by (simp add: N_NORMAL_def)
  ultimately show ?thesis unfolding NORMAL_IDS_def set_map by (metis image_eqI)
qed

lemma acc2_mem: "''ACC00002'' \<in> set NORMAL_IDS"
proof -
  have "''ACC'' @ zfill 5 (str 2) = ''ACC00002''"
    by code_simp
  moreover have "(2::nat) \<in> set [1..<N_NORMAL + 1]" by (simp add: N_NORMAL_def)
  ultimately show ?thesis unfolding NORMAL_IDS_def set_map by (metis image_eqI)
qed

lemma others_nonempty: "filter (\<lambda>a. a \<noteq> acc) ALL_ACCOUNT_IDS \<noteq> []"
proof -
  have "''ACC00001'' \<noteq> acc \<or> ''ACC00002'' \<noteq> acc" by auto
  then have "\<exists>a \<in> set ALL_ACCOUNT_IDS. a \<noteq> acc"
    using acc1_mem acc2_mem by (auto simp: ALL_ACCOUNT_IDS_def)
  then show ?thesis by (simp add: filter_empty_conv)
qed

lemma add_txn_ok:
  "\<exists>t s'. add_txn acc ty amt ch cp ts im mt s = Inr ((), s') \<and> appended s s' [t] \<and>
     account_id t = acc \<and> txn_type t = ty \<and> amount t = amt \<and> channel t = ch \<and>
     counterparty t = cp \<and> timestamp t = ts \<and> is_mule t = im \<and> mule_type t = mt \<and>
     amount_var s' = amount_var s"
  by (simp add: add_txn_def appended_def)

lemma normal_txn_ok:
  "\<exists>t s'. normal_txn acc s = Inr ((), s') \<and> appended s s' [t] \<and>
     labelled acc 0 ''none'' 0 TOTAL_DAYS False t"
proof -
  obtain ts s1 where 1: "rand_ts 0 None False s = Inr (ts, s1)" "ts_in 0 TOTAL_DAYS False ts"
      "rng_only s s1"
    using rand_ts_ok[of 0 TOTAL_DAYS None False s] by (auto simp: TOTAL_DAYS_eq)
  obtain ty s2 where 2: "random_choice [''credit'', ''debit''] s1 = Inr (ty, s2)" "rng_only s1 s2"
    using random_choice_ok[of "[''credit'', ''debit'']" s1] by auto
  obtain cp s3 where 3: "random_choice (filter (\<lambda>a. a \<noteq> acc) ALL_ACCOUNT_IDS) s2 = Inr (cp, s3)"
      "rng_only s2 s3"
    using random_choice_ok[OF others_nonempty, of acc s2] by auto
  obtain x s4 where 4: "np_random_lognormal (95 / 10) 1 s3 = Inr (x, s4)" "rng_only s3 s4"
    using np_random_lognormal_ok by blast
  define s4' where "s4' = s4\<lparr>amount_var := Some (py_round2 x)\<rparr>"
  obtain ch s5 where 5: "random_choice CHANNELS s4' = Inr (ch, s5)" "rng_only s4' s5"
    using random_choice_ok[of CHANNELS s4'] by (auto simp: CHANNELS_def)
  obtain t s6 where 6: "add_txn acc ty (py_round2 x) ch cp ts 0 ''none'' s5 = Inr ((), s6)"
      "appended s5 s6 [t]" "account_id t = acc" "is_mule t = 0" "mule_type t = ''none''"
      "timestamp t = ts"
    using add_txn_ok[of acc ty "py_round2 x" ch cp ts 0 "''none''" s5] by auto
  have run: "normal_txn acc s = Inr ((), s6)"
    by (simp only: normal_txn_def bnd_def 1(1) 2(1) 3(1) 4(1) assign_amount_def
        s4'_def[symmetric] 5(1) 6(1) sum.case prod.case)
  have "appended s s6 [t]"
    using 1(3) 2(2) 3(2) 4(2) 5(2) 6(2) by (simp add: rng_only_def appended_def s4'_def)
  moreover have "labelled acc 0 ''none'' 0 TOTAL_DAYS False t"
    using 6 1(2) by (simp add: labelled_def)
  ultimately show ?thesis using run by blast
qed

lemma NORMAL_IDS_nonempty: "NORMAL_IDS \<noteq> []"
  using acc1_mem by auto

lemma complicit_credit_ok:
  assumes "sd \<le> TOTAL_DAYS"
  shows "\<exists>t s'. complicit_credit acc sd sender s = Inr ((), s') \<and> appended s s' [t] \<and>
     labelled acc 1 ''complicit'' sd TOTAL_DAYS True t \<and> txn_type t = ''credit'' \<and>
     counterparty t = sender \<and> amount_var s' = Some (amount t)"
proof -
  obtain ts s1 where 1: "rand_ts sd None True s = Inr (ts, s1)" "ts_in sd TOTAL_DAYS True ts"
      "rng_only s s1"
    using rand_ts_ok[OF assms, of None True s] by auto
  obtain x s2 where 2: "random_uniform 20000 200000 s1 = Inr (x, s2)" "rng_only s1 s2"
    using random_uniform_ok[of 20000 200000 s1] by auto
  obtain a s3 where 3: "round_amount x s2 = Inr (a, s3)" "rng_only s2 s3"
    using round_amount_ok by blast
  define s3' where "s3' = s3\<lparr>amount_var := Some a\<rparr>"
  obtain ch s4 where 4: "random_choice [''UPI'', ''NEFT'', ''IMPS''] s3' = Inr (ch, s4)"
      "rng_only s3' s4"
    using random_choice_ok[of "[''UPI'', ''NEFT'', ''IMPS'']" s3'] by auto
  obtain t s5 where 5: "add_txn acc ''credit'' a ch sender ts 1 ''complicit'' s4 = Inr ((), s5)"
      "appended s4 s5 [t]" "account_id t = acc" "is_mule t = 1" "mule_type t = ''complicit''"
      "timestamp t = ts" "txn_type t = ''credit''" "counterparty t = sender" "amount t = a"
      "amount_var s5 = amount_var s4"
    using add_txn_ok[of acc "''credit''" a ch sender ts 1 "''complicit''" s4] by auto
  have run: "complicit_credit acc sd sender s = Inr ((), s5)"
    by (simp only: complicit_credit_def bnd_def 1(1) 2(1) 3(1) assign_amount_def
        s3'_def[symmetric] 4(1) 5(1) sum.case prod.case)
  have "appended s s5 [t]"
    using 1(3) 2(2) 3(2) 4(2) 5(2) by (simp add: rng_only_def appended_def s3'_def)
  moreover have "labelled acc 1 ''complicit'' sd TOTAL_DAYS True t"
    using 5 1(2) by (simp add: labelled_def)
  moreover have "amount_var s5 = Some (amount t)"
    using 4(2) 5(9,10) by (simp add: rng_only_def s3'_def)
  ultimately show ?thesis using run 5(7,8) by blast
qed

lemma complicit_debit_ok:
  assumes "sd \<le> TOTAL_DAYS" and "receivers \<noteq> []" and "amount_var s = Some a"
  shows "\<exists>t s'. complicit_debit acc sd receivers s = Inr ((), s') \<and> appended s s' [t] \<and>
     labelled acc 1 ''complicit'' sd TOTAL_DAYS True t \<and> txn_type t = ''debit'' \<and>
     counterparty t \<in> set receivers \<and> skim_of a (amount t) \<and> amount_var s' = Some a"
proof -
  obtain ts s1 where 1: "rand_ts sd None True s = Inr (ts, s1)" "ts_in sd TOTAL_DAYS True ts"
      "rng_only s s1"
    using rand_ts_ok[OF assms(1), of None True s] by auto
  have 2: "read_amount s1 = Inr (a, s1)"
    using assms(3) 1(3) by (simp add: read_amount_def rng_only_def)
  obtain f s3 where 3: "random_uniform (92 / 100) (99 / 100) s1 = Inr (f, s3)"
      "92 / 100 \<le> f" "f \<le> 99 / 100" "rng_only s1 s3"
    using random_uniform_ok[of "92 / 100" "99 / 100" s1] by auto
  obtain d s4 where 4: "round_amount (a * f) s3 = Inr (d, s4)"
      "d = of_int (py_round (a * f / 1000) * 1000) \<or> d = py_round2 (a * f)" "rng_only s3 s4"
    using round_amount_ok by blast
  obtain r s5 where 5: "random_choice receivers s4 = Inr (r, s5)" "r \<in> set receivers"
      "rng_only s4 s5"
    using random_choice_ok[OF assms(2)] by blast
  obtain ch s6 where 6: "random_choice [''NEFT'', ''RTGS'', ''Net Banking''] s5 = Inr (ch, s6)"
      "rng_only s5 s6"
    using random_choice_ok[of "[''NEFT'', ''RTGS'', ''Net Banking'']" s5] by auto
  obtain t s7 where 7: "add_txn acc ''debit'' d ch r ts 1 ''complicit'' s6 = Inr ((), s7)"
      "appended s6 s7 [t]" "account_id t = acc" "is_mule t = 1" "mule_type t = ''complicit''"
      "timestamp t = ts" "txn_type t = ''debit''" "counterparty t = r" "amount t = d"
      "amount_var s7 = amount_var s6"
    using add_txn_ok[of acc "''debit''" d ch r ts 1 "''complicit''" s6] by auto
  have run: "complicit_debit acc sd receivers s = Inr ((), s7)"
    by (simp only: complicit_debit_def bnd_def 1(1) 2 3(1) 4(1) 5(1) 6(1) 7(1)
        sum.case prod.case)
  have "appended s s7 [t]"
    using 1(3) 3(4) 4(3) 5(3) 6(2) 7(2) by (simp add: rng_only_def appended_def)
  moreover have "labelled acc 1 ''complicit'' sd TOTAL_DAYS True t"
    using 7 1(2) by (simp add: labelled_def)
  moreover have "skim_of a (amount t)"
    unfolding skim_of_def 7(9) using 3(2,3) 4(2) by blast
  moreover have "amount_var s7 = Some a"
    using assms(3) 1(3) 3(4) 4(3) 5(3) 6(2) 7(10) by (simp add: rng_only_def)
  ultimately show ?thesis using run 7(7,8) 5(2) by blast
qed

lemma recruited_phase1_txn_ok:
  "\<exists>t s'. recruited_phase1_txn acc s = Inr ((), s') \<and> appended s s' [t] \<and>
     labelled acc 0 ''recruited'' 0 60 False t"
proof -
  obtain ts s1 where 1: "rand_ts 0 (Some 60) False s = Inr (ts, s1)" "ts_in 0 60 False ts"
      "rng_only s s1"
    using rand_ts_ok[of 0 60 "Some 60" False s] by auto
  obtain ty s2 where 2: "random_choice [''credit'', ''debit''] s1 = Inr (ty, s2)" "rng_only s1 s2"
    using random_choice_ok[of "[''credit'', ''debit'']" s1] by auto
  obtain cp s3 where 3: "random_choice NORMAL_IDS s2 = Inr (cp, s3)" "rng_only s2 s3"
    using random_choice_ok[OF NORMAL_IDS_nonempty, of s2] by auto
  obtain x s4 where 4: "np_random_lognormal 9 (8 / 10) s3 = Inr (x, s4)" "rng_only s3 s4"
    using np_random_lognormal_ok by blast
  define s4' where "s4' = s4\<lparr>amount_var := Some (py_round2 x)\<rparr>"
  obtain ch s5 where 5: "random_choice CHANNELS s4' = Inr (ch, s5)" "rng_only s4' s5"
    using random_choice_ok[of CHANNELS s4'] by (auto simp: CHANNELS_def)
  obtain t s6 where 6: "add_txn acc ty (py_round2 x) ch cp ts 0 ''recruited'' s5 = Inr ((), s6)"
      "appended s5 s6 [t]" "account_id t = acc" "is_mule t = 0" "mule_type t = ''recruited''"
      "timestamp t = ts"
    using add_txn_ok[of acc ty "py_round2 x" ch cp ts 0 "''recruited''" s5] by auto
  have run: "recruited_phase1_txn acc s = Inr ((), s6)"
    by (simp only: recruited_phase1_txn_def bnd_def 1(1) 2(1) 3(1) 4(1) assign_amount_def
        s4'_def[symmetric] 5(1) 6(1) sum.case prod.case)
  have "appended s s6 [t]"
    using 1(3) 2(2) 3(2) 4(2) 5(2) 6(2) by (simp add: rng_only_def appended_def s4'_def)
  moreover have "labelled acc 0 ''recruited'' 0 60 False t"
    using 6 1(2) by (simp add: labelled_def)
  ultimately show ?thesis using run by blast
qed

lemma exploited_phase1_txn_ok:
  "\<exists>t s'. exploited_phase1_txn acc s = Inr ((), s') \<and> appended s s' [t] \<and>
     labelled acc 0 ''exploited'' 0 90 False t"
proof -
  obtain ts s1 where 1: "rand_ts 0 (Some 90) False s = Inr (ts, s1)" "ts_in 0 90 False ts"
      "rng_only s s1"
    using rand_ts_ok[of 0 90 "Some 90" False s] by auto
  obtain ty s2 where 2: "random_choice [''credit'', ''debit''] s1 = Inr (ty, s2)" "rng_only s1 s2"
    using random_choice_ok[of "[''credit'', ''debit'']" s1] by auto
  obtain cp s3 where 3: "random_choice NORMAL_IDS s2 = Inr (cp, s3)" "rng_only s2 s3"
    using random_choice_ok[OF NORMAL_IDS_nonempty, of s2] by auto
  obtain x s4 where 4: "np_random_lognormal (85 / 10) (7 / 10) s3 = Inr (x, s4)" "rng_only s3 s4"
    using np_random_lognormal_ok by blast
  define s4' where "s4' = s4\<lparr>amount_var := Some (py_round2 x)\<rparr>"
  obtain ch s5 where 5: "random_choice [''UPI'', ''Mobile Banking''] s4' = Inr (ch, s5)"
      "rng_only s4' s5"
    using random_choice_ok[of "[''UPI'', ''Mobile Banking'']" s4'] by auto
  obtain t s6 where 6: "add_txn acc ty (py_round2 x) ch cp ts 0 ''exploited'' s5 = Inr ((), s6)"
      "appended s5 s6 [t]" "account_id t = acc" "is_mule t = 0" "mule_type t = ''exploited''"
      "timestamp t = ts"
    using add_txn_ok[of acc ty "py_round2 x" ch cp ts 0 "''exploited''" s5] by auto
  have run: "exploited_phase1_txn acc s = Inr ((), s6)"
    by (simp only: exploited_phase1_txn_def bnd_def 1(1) 2(1) 3(1) 4(1) assign_amount_def
        s4'_def[symmetric] 5(1) 6(1) sum.case prod.case)
  have "appended s s6 [t]"
    using 1(3) 2(2) 3(2) 4(2) 5(2) 6(2) by (simp add: rng_only_def appended_def s4'_def)
  moreover have "labelled acc 0 ''exploited'' 0 90 False t"
    using 6 1(2) by (simp add: labelled_def)
  ultimately show ?thesis using run by blast
qed

lemma exploited_phase2_txn_ok:
  assumes "dests \<noteq> []"
  shows "\<exists>t s'. exploited_phase2_txn acc dests td s = Inr ((), s') \<and> appended s s' [t] \<and>
     labelled acc 1 ''exploited'' td (td + 3) True t"
proof -
  obtain ts s1 where 1: "rand_ts td (Some (td + 3)) True s = Inr (ts, s1)"
      "ts_in td (td + 3) True ts" "rng_only s s1"
    using rand_ts_ok[of td "td + 3" "Some (td + 3)" True s] by auto
  obtain x s2 where 2: "random_uniform 50000 500000 s1 = Inr (x, s2)" "rng_only s1 s2"
    using random_uniform_ok[of 50000 500000 s1] by auto
  obtain a s3 where 3: "round_amount x s2 = Inr (a, s3)" "rng_only s2 s3"
    using round_amount_ok by blast
  define s3' where "s3' = s3\<lparr>amount_var := Some a\<rparr>"
  obtain dest s4 where 4: "random_choice dests s3' = Inr (dest, s4)" "rng_only s3' s4"
    using random_choice_ok[OF assms, of s3'] by auto
  obtain ch s5 where 5: "random_choice [''RTGS'', ''Net Banking'', ''NEFT''] s4 = Inr (ch, s5)"
      "rng_only s4 s5"
    using random_choice_ok[of "[''RTGS'', ''Net Banking'', ''NEFT'']" s4] by auto
  obtain t s6 where 6: "add_txn acc ''debit'' a ch dest ts 1 ''exploited'' s5 = Inr ((), s6)"
      "appended s5 s6 [t]" "account_id t = acc" "is_mule t = 1" "mule_type t = ''exploited''"
      "timestamp t = ts"
    using add_txn_ok[of acc "''debit''" a ch dest ts 1 "''exploited''" s5] by auto
  have run: "exploited_phase2_txn acc dests td s = Inr ((), s6)"
    by (simp only: exploited_phase2_txn_def bnd_def 1(1) 2(1) 3(1) assign_amount_def
        s3'_def[symmetric] 4(1) 5(1) 6(1) sum.case prod.case)
  have "appended s s6 [t]"
    using 1(3) 2(2) 3(2) 4(2) 5(2) 6(2) by (simp add: rng_only_def appended_def s3'_def)
  moreover have "labelled acc 1 ''exploited'' td (td + 3) True t"
    using 6 1(2) by (simp add: labelled_def)
  ultimately show ?thesis using run by blast
qed

lemma recruited_phase2_txn_ok:
  assumes "handlers \<noteq> []"
  shows "\<exists>t s'. recruited_phase2_txn acc handlers s = Inr ((), s') \<and> appended s s' [t] \<and>
     labelled acc 1 ''recruited'' 61 TOTAL_DAYS True t"
proof -
  obtain ts s1 where 1: "rand_ts 61 None True s = Inr (ts, s1)" "ts_in 61 TOTAL_DAYS True ts"
      "rng_only s s1"
    using rand_ts_ok[of 61 TOTAL_DAYS None True s] by (auto simp: TOTAL_DAYS_eq)
  obtain x s2 where 2: "random_uniform 15000 150000 s1 = Inr (x, s2)" "rng_only s1 s2"
    using random_uniform_ok[of 15000 150000 s1] by auto
  obtain a s3 where 3: "round_amount x s2 = Inr (a, s3)" "rng_only s2 s3"
    using round_amount_ok by blast
  define s3' where "s3' = s3\<lparr>amount_var := Some a\<rparr>"
  obtain u s4 where 4: "random_random s3' = Inr (u, s4)" "rng_only s3' s4"
    using random_random_ok by blast
  have pre: "appended s s4 []"
    using 1(3) 2(2) 3(2) 4(2) by (simp add: rng_only_def appended_def s3'_def)
  show ?thesis
  proof (cases "u < 55 / 100")
    case True
    obtain sender s5 where 5: "random_choice handlers s4 = Inr (sender, s5)" "rng_only s4 s5"
      using random_choice_ok[OF assms, of s4] by auto
    obtain ch s6 where 6: "random_choice [''UPI'', ''IMPS''] s5 = Inr (ch, s6)" "rng_only s5 s6"
      using random_choice_ok[of "[''UPI'', ''IMPS'']" s5] by auto
    obtain t s7 where 7: "add_txn acc ''credit'' a ch sender ts 1 ''recruited'' s6 = Inr ((), s7)"
        "appended s6 s7 [t]" "account_id t = acc" "is_mule t = 1" "mule_type t = ''recruited''"
        "timestamp t = ts"
      using add_txn_ok[of acc "''credit''" a ch sender ts 1 "''recruited''" s6] by auto
    have run: "recruited_phase2_txn acc handlers s = Inr ((), s7)"
      by (simp only: recruited_phase2_txn_def bnd_def 1(1) 2(1) 3(1) assign_amount_def
          s3'_def[symmetric] 4(1) True if_True 5(1) 6(1) 7(1) sum.case prod.case)
    have "appended s s7 [t]"
      using pre 5(2) 6(2) 7(2) by (simp add: rng_only_def appended_def)
    moreover have "labelled acc 1 ''recruited'' 61 TOTAL_DAYS True t"
      using 7 1(2) by (simp add: labelled_def)
    ultimately show ?thesis using run by blast
  next
    case False
    have ne: "MULE_IDS @ slice 0 15 EXTERNAL_IDS \<noteq> []"
      by (simp add: MULE_IDS_def N_MULE_def)
    obtain receiver s5 where 5: "random_choice (MULE_IDS @ slice 0 15 EXTERNAL_IDS) s4 = Inr (receiver, s5)"
        "rng_only s4 s5"
      using random_choice_ok[OF ne, of s4] by auto
    obtain f s6 where 6: "random_uniform (88 / 100) (98 / 100) s5 = Inr (f, s6)" "rng_only s5 s6"
      using random_uniform_ok[of "88 / 100" "98 / 100" s5] by auto
    obtain ch s7 where 7: "random_choice [''NEFT'', ''ATM'', ''Net Banking''] s6 = Inr (ch, s7)"
        "rng_only s6 s7"
      using random_choice_ok[of "[''NEFT'', ''ATM'', ''Net Banking'']" s6] by auto
    obtain t s8 where 8: "add_txn acc ''debit'' (a * f) ch receiver ts 1 ''recruited'' s7 = Inr ((), s8)"
        "appended s7 s8 [t]" "account_id t = acc" "is_mule t = 1" "mule_type t = ''recruited''"
        "timestamp t = ts"
      using add_txn_ok[of acc "''debit''" "a * f" ch receiver ts 1 "''recruited''" s7] by auto
    have run: "recruited_phase2_txn acc handlers s = Inr ((), s8)"
      by (simp only: recruited_phase2_txn_def bnd_def 1(1) 2(1) 3(1) assign_amount_def
          s3'_def[symmetric] 4(1) False if_False 5(1) 6(1) 7(1) 8(1) sum.case prod.case)
    have "appended s s8 [t]"
      using pre 5(2) 6(2) 7(2) 8(2) by (simp add: rng_only_def appended_def)
    moreover have "labelled acc 1 ''recruited'' 61 TOTAL_DAYS True t"
      using 8 1(2) by (simp add: labelled_def)
    ultimately show ?thesis using run by blast
  qed
qed

lemma repeat_ok:
  assumes body: "\<And>pre s. A pre s \<Longrightarrow>
      \<exists>t s'. body s = Inr ((), s') \<and> appended s s' [t] \<and> P t \<and> A (pre @ [t]) s'"
  shows "A pre s \<Longrightarrow>
      \<exists>ts s'. repeat n body s = Inr ((), s') \<and> appended s s' ts \<and> length ts = n \<and>
        list_all P ts \<and> A (pre @ ts) s'"
proof (induction n arbitrary: pre s)
  case 0
  then show ?case by (simp add: ret_def appended_refl)
next
  case (Suc n)
  obtain t s1 where 1: "body s = Inr ((), s1)" "appended s s1 [t]" "P t" "A (pre @ [t]) s1"
    using body[OF Suc.prems] by blast
  obtain ts s2 where 2: "repeat n body s1 = Inr ((), s2)" "appended s1 s2 ts" "length ts = n"
      "list_all P ts" "A ((pre @ [t]) @ ts) s2"
    using Suc.IH[OF 1(4)] by blast
  have "repeat (Suc n) body s = Inr ((), s2)"
    by (simp add: bnd_def 1(1) 2(1))
  moreover have "appended s s2 (t # ts)"
    using appended_trans[OF 1(2) 2(2)] by simp
  ultimately show ?case using 1(3) 2(3,4,5) by fastforce
qed

lemma for_each_ok:
  assumes body: "\<And>x s. x \<in> set xs \<Longrightarrow>
      \<exists>b s'. f x s = Inr ((), s') \<and> appended s s' b \<and> Q x b"
  shows "\<exists>bs s'. for_each xs f s = Inr ((), s') \<and> appended s s' (concat bs) \<and>
      list_all2 Q xs bs"
  using body
proof (induction xs arbitrary: s)
  case Nil
  have "for_each [] f s = Inr ((), s)" by (simp add: ret_def)
  moreover have "appended s s (concat [])" by (simp add: appended_refl)
  ultimately show ?case by blast
next
  case (Cons x xs)
  obtain b s1 where 1: "f x s = Inr ((), s1)" "appended s s1 b" "Q x b"
    using Cons.prems[of x s] by auto
  have "\<And>y s. y \<in> set xs \<Longrightarrow> \<exists>b s'. f y s = Inr ((), s') \<and> appended s s' b \<and> Q y b"
    using Cons.prems by simp
  from Cons.IH[OF this, of s1]
  obtain bs s2 where 2: "for_each xs f s1 = Inr ((), s2)" "appended s1 s2 (concat bs)"
      "list_all2 Q xs bs"
    by blast
  have "for_each (x # xs) f s = Inr ((), s2)"
    by (simp add: bnd_def 1(1) 2(1))
  moreover have "appended s s2 (concat (b # bs))"
    using appended_trans[OF 1(2) 2(2)] by simp
  moreover have "list_all2 Q (x # xs) (b # bs)" using 1(3) 2(3) by simp
  ultimately show ?case by blast
qed

lemma list_all2_concat:
  "list_all2 (\<lambda>x b. list_all P b) xs bs \<Longrightarrow> list_all P (concat bs)"
  by (induction xs bs rule: list_all2_induct) auto

lemma list_all_mono: "list_all P xs \<Longrightarrow> (\<And>x. P x \<Longrightarrow> Q x) \<Longrightarrow> list_all Q xs"
  by (induction xs) auto

lemma for_each_all_ok:
  assumes "\<And>x s. x \<in> set xs \<Longrightarrow>
      \<exists>b s'. f x s = Inr ((), s') \<and> appended s s' b \<and> list_all P b"
  shows "\<exists>ts s'. for_each xs f s = Inr ((), s') \<and> appended s s' ts \<and> list_all P ts"
proof -
  obtain bs s' where "for_each xs f s = Inr ((), s')" "appended s s' (concat bs)"
      "list_all2 (\<lambda>x b. list_all P b) xs bs"
    using for_each_ok[of xs f "\<lambda>x b. list_all P b" s] assms by blast
  then show ?thesis using list_all2_concat by blast
qed

lemma repeat_all_ok:
  assumes "\<And>s. \<exists>t s'. body s = Inr ((), s') \<and> appended s s' [t] \<and> P t"
  shows "\<exists>ts s'. repeat n body s = Inr ((), s') \<and> appended s s' ts \<and> length ts = n \<and>
      list_all P ts"
  using repeat_ok[of "\<lambda>pre s. True" body P "[]" s n] assms by simp

lemma normal_account_ok:
  "\<exists>ts s'. normal_account acc s = Inr ((), s') \<and> appended s s' ts \<and>
     list_all (labelled acc 0 ''none'' 0 TOTAL_DAYS False) ts"
proof -
  obtain n s1 where 1: "random_randint 200 600 s = Inr (n, s1)" "rng_only s s1"
    using random_randint_ok[of 200 600 s] by auto
  obtain ts s2 where 2: "repeat (nat n) (normal_txn acc) s1 = Inr ((), s2)" "appended s1 s2 ts"
      "list_all (labelled acc 0 ''none'' 0 TOTAL_DAYS False) ts"
    using repeat_all_ok[of "normal_txn acc" "labelled acc 0 ''none'' 0 TOTAL_DAYS False" "nat n" s1]
      normal_txn_ok by blast
  have "normal_account acc s = Inr ((), s2)"
    by (simp only: normal_account_def bnd_def 1(1) 2(1) sum.case prod.case)
  then show ?thesis using rng_only_appended[OF 1(2) 2(2)] 2(3) by blast
qed

lemma complicit_sender_ok:
  assumes "sd \<le> TOTAL_DAYS" and "receivers \<noteq> []"
  shows "\<exists>cs ds s'. complicit_sender acc sd receivers sender s = Inr ((), s') \<and>
     appended s s' (cs @ ds) \<and> sender_batch acc sd receivers sender cs ds"
proof -
  let ?C = "\<lambda>t. labelled acc 1 ''complicit'' sd TOTAL_DAYS True t \<and>
                    txn_type t = ''credit'' \<and> counterparty t = sender"
  obtain n s1 where 1: "random_randint 3 8 s = Inr (n, s1)" "3 \<le> n" "n \<le> 8" "rng_only s s1"
    using random_randint_ok[of 3 8 s] by auto
  have "\<exists>cs s'. repeat (nat n) (complicit_credit acc sd sender) s1 = Inr ((), s') \<and>
      appended s1 s' cs \<and> length cs = nat n \<and> list_all ?C cs \<and>
      ([] @ cs = [] \<or> amount_var s' = Some (amount (last ([] @ cs))))"
  proof (rule repeat_ok[where A = "\<lambda>pre s. pre = [] \<or> amount_var s = Some (amount (last pre))"])
    fix pre :: "txn list" and s :: gen_state
    show "\<exists>t s'. complicit_credit acc sd sender s = Inr ((), s') \<and> appended s s' [t] \<and>
        ?C t \<and> (pre @ [t] = [] \<or> amount_var s' = Some (amount (last (pre @ [t]))))"
      using complicit_credit_ok[OF assms(1), of acc sender s] by auto
  qed simp
  then obtain cs s2 where 2: "repeat (nat n) (complicit_credit acc sd sender) s1 = Inr ((), s2)"
      "appended s1 s2 cs" "length cs = nat n" "list_all ?C cs"
      "cs = [] \<or> amount_var s2 = Some (amount (last cs))"
    by auto
  have "cs \<noteq> []" using 2(3) 1(2) by auto
  then have av: "amount_var s2 = Some (amount (last cs))" using 2(5) by simp
  let ?D = "\<lambda>t. labelled acc 1 ''complicit'' sd TOTAL_DAYS True t \<and>
                    txn_type t = ''debit'' \<and> counterparty t \<in> set receivers \<and>
                    skim_of (amount (last cs)) (amount t)"
  have "\<exists>ds s'. repeat (nat n) (complicit_debit acc sd receivers) s2 = Inr ((), s') \<and>
      appended s2 s' ds \<and> length ds = nat n \<and> list_all ?D ds \<and>
      amount_var s' = Some (amount (last cs))"
  proof (rule repeat_ok[where A = "\<lambda>pre s. amount_var s = Some (amount (last cs))" and pre = "[]"])
    fix pre :: "txn list" and s :: gen_state
    assume "amount_var s = Some (amount (last cs))"
    from complicit_debit_ok[OF assms this, of acc]
    show "\<exists>t s'. complicit_debit acc sd receivers s = Inr ((), s') \<and> appended s s' [t] \<and>
        ?D t \<and> amount_var s' = Some (amount (last cs))"
      by blast
  qed (rule av)
  then obtain ds s3 where 3: "repeat (nat n) (complicit_debit acc sd receivers) s2 = Inr ((), s3)"
      "appended s2 s3 ds" "length ds = nat n" "list_all ?D ds"
    by auto
  have "complicit_sender acc sd receivers sender s = Inr ((), s3)"
    by (simp only: complicit_sender_def bnd_def 1(1) 2(1) 3(1) sum.case prod.case)
  moreover have "appended s s3 (cs @ ds)"
    using rng_only_appended[OF 1(4) appended_trans[OF 2(2) 3(2)]] .
  moreover have "3 \<le> nat n" "nat n \<le> 8" using 1(2,3) by linarith+
  then have "sender_batch acc sd receivers sender cs ds"
    using 2(3,4) 3(3,4) by (simp add: sender_batch_def)
  ultimately show ?thesis by blast
qed

lemma ts_in_mono:
  "ts_in lo hi night dt \<Longrightarrow> lo' \<le> lo \<Longrightarrow> hi \<le> hi' \<Longrightarrow> ts_in lo' hi' night dt"
  by (simp add: ts_in_def)

lemma labelled_mono:
  "labelled acc im mt lo hi night t \<Longrightarrow> lo' \<le> lo \<Longrightarrow> hi \<le> hi' \<Longrightarrow>
   labelled acc im mt lo' hi' night t"
  by (auto simp: labelled_def intro: ts_in_mono)

lemma complicit_mule_ok:
  "\<exists>receivers senders bs s'. complicit_mule acc s = Inr ((), s') \<and>
     appended s s' (concat bs) \<and> account_batches acc receivers senders bs"
proof -
  have len_ext: "int (length (slice 0 20 EXTERNAL_IDS)) = 20"
    by (simp add: slice_def EXTERNAL_IDS_def N_EXTERNAL_def)
  have len_norm: "int (length NORMAL_IDS) = 300"
    by (simp add: NORMAL_IDS_def N_NORMAL_def)
  obtain k s1 where 1: "random_randint 1 2 s = Inr (k, s1)" "1 \<le> k" "k \<le> 2" "rng_only s s1"
    using random_randint_ok[of 1 2 s] by auto
  obtain receivers s2 where 2: "random_sample (slice 0 20 EXTERNAL_IDS) k s1 = Inr (receivers, s2)"
      "int (length receivers) = k" "set receivers \<subseteq> set (slice 0 20 EXTERNAL_IDS)" "rng_only s1 s2"
    using random_sample_ok[of k "slice 0 20 EXTERNAL_IDS" s1] 1(2,3) len_ext by auto
  obtain k' s3 where 3: "random_randint 8 20 s2 = Inr (k', s3)" "8 \<le> k'" "k' \<le> 20" "rng_only s2 s3"
    using random_randint_ok[of 8 20 s2] by auto
  obtain senders s4 where 4: "random_sample NORMAL_IDS k' s3 = Inr (senders, s4)"
      "int (length senders) = k'" "set senders \<subseteq> set NORMAL_IDS" "rng_only s3 s4"
    using random_sample_ok[of k' NORMAL_IDS s3] 3(2,3) len_norm by auto
  have ne: "receivers \<noteq> []" using 2(2) 1(2) by auto
  have sd: "TOTAL_DAYS - 60 \<le> TOTAL_DAYS" by simp
  let ?Q = "\<lambda>sender b. \<exists>cs ds. b = cs @ ds \<and>
         sender_batch acc (TOTAL_DAYS - 60) receivers sender cs ds"
  have "\<exists>bs s'. for_each senders (complicit_sender acc (TOTAL_DAYS - 60) receivers) s4 = Inr ((), s') \<and>
      appended s4 s' (concat bs) \<and> list_all2 ?Q senders bs"
  proof (rule for_each_ok)
    fix x s
    show "\<exists>b s'. complicit_sender acc (TOTAL_DAYS - 60) receivers x s = Inr ((), s') \<and>
        appended s s' b \<and> ?Q x b"
      using complicit_sender_ok[OF sd ne, of acc x s] by blast
  qed
  then obtain bs s5 where 5:
      "for_each senders (complicit_sender acc (TOTAL_DAYS - 60) receivers) s4 = Inr ((), s5)"
      "appended s4 s5 (concat bs)" "list_all2 ?Q senders bs"
    by blast
  have "complicit_mule acc s = Inr ((), s5)"
    by (simp only: complicit_mule_def bnd_def 1(1) 2(1) 3(1) 4(1) 5(1) sum.case prod.case)
  moreover have "appended s s5 (concat bs)"
    using 1(4) 2(4) 3(4) 4(4) 5(2) by (blast intro: rng_only_appended)
  moreover have "account_batches acc receivers senders bs"
    unfolding account_batches_def using ne 1(3) 2(2,3) 3(2,3) 4(2,3) 5(3) by auto
  ultimately show ?thesis by blast
qed

lemma recruited_mule_ok:
  "\<exists>ts s'. recruited_mule acc s = Inr ((), s') \<and> appended s s' ts \<and>
     list_all (\<lambda>t. labelled acc 0 ''recruited'' 0 60 False t \<or>
                   labelled acc 1 ''recruited'' 61 TOTAL_DAYS True t) ts"
proof -
  have len_ext: "int (length (slice 20 35 EXTERNAL_IDS)) = 15"
    by (simp add: slice_def EXTERNAL_IDS_def N_EXTERNAL_def)
  obtain k s1 where 1: "random_randint 1 3 s = Inr (k, s1)" "1 \<le> k" "k \<le> 3" "rng_only s s1"
    using random_randint_ok[of 1 3 s] by auto
  obtain handlers s2 where 2: "random_sample (slice 20 35 EXTERNAL_IDS) k s1 = Inr (handlers, s2)"
      "int (length handlers) = k" "rng_only s1 s2"
    using random_sample_ok[of k "slice 20 35 EXTERNAL_IDS" s1] 1(2,3) len_ext by auto
  have ne: "handlers \<noteq> []" using 2(2) 1(2) by auto
  obtain n1 s3 where 3: "random_randint 50 120 s2 = Inr (n1, s3)" "rng_only s2 s3"
    using random_randint_ok[of 50 120 s2] by auto
  obtain ts1 s4 where 4: "repeat (nat n1) (recruited_phase1_txn acc) s3 = Inr ((), s4)"
      "appended s3 s4 ts1" "list_all (labelled acc 0 ''recruited'' 0 60 False) ts1"
    using repeat_all_ok[of "recruited_phase1_txn acc" "labelled acc 0 ''recruited'' 0 60 False"
        "nat n1" s3] recruited_phase1_txn_ok by blast
  obtain n2 s5 where 5: "random_randint 80 200 s4 = Inr (n2, s5)" "rng_only s4 s5"
    using random_randint_ok[of 80 200 s4] by auto
  obtain ts2 s6 where 6: "repeat (nat n2) (recruited_phase2_txn acc handlers) s5 = Inr ((), s6)"
      "appended s5 s6 ts2" "list_all (labelled acc 1 ''recruited'' 61 TOTAL_DAYS True) ts2"
    using repeat_all_ok[of "recruited_phase2_txn acc handlers"
        "labelled acc 1 ''recruited'' 61 TOTAL_DAYS True" "nat n2" s5]
      recruited_phase2_txn_ok[OF ne] by blast
  have "recruited_mule acc s = Inr ((), s6)"
    by (simp only: recruited_mule_def bnd_def 1(1) 2(1) 3(1) 4(1) 5(1) 6(1) sum.case prod.case)
  moreover have "appended s s6 (ts1 @ ts2)"
    using 1(4) 2(3) 3(2) appended_trans[OF 4(2) rng_only_appended[OF 5(2) 6(2)]]
    by (blast intro: rng_only_appended)
  moreover have "list_all (\<lambda>t. labelled acc 0 ''recruited'' 0 60 False t \<or>
                   labelled acc 1 ''recruited'' 61 TOTAL_DAYS True t) (ts1 @ ts2)"
    using 4(3) 6(3) by (auto simp: list_all_iff)
  ultimately show ?thesis by blast
qed

lemma exploited_mule_ok:
  "\<exists>ts s'. exploited_mule acc s = Inr ((), s') \<and> appended s s' ts \<and>
     list_all (\<lambda>t. labelled acc 0 ''exploited'' 0 90 False t \<or>
                   labelled acc 1 ''exploited'' 91 123 True t) ts"
proof -
  have len_ext: "int (length (drop 35 EXTERNAL_IDS)) = 15"
    by (simp add: EXTERNAL_IDS_def N_EXTERNAL_def)
  obtain k s1 where 1: "random_randint 2 4 s = Inr (k, s1)" "2 \<le> k" "k \<le> 4" "rng_only s s1"
    using random_randint_ok[of 2 4 s] by auto
  obtain dests s2 where 2: "random_sample (drop 35 EXTERNAL_IDS) k s1 = Inr (dests, s2)"
      "int (length dests) = k" "rng_only s1 s2"
    using random_sample_ok[of k "drop 35 EXTERNAL_IDS" s1] 1(2,3) len_ext by auto
  have ne: "dests \<noteq> []" using 2(2) 1(2) by auto
  obtain n1 s3 where 3: "random_randint 100 250 s2 = Inr (n1, s3)" "rng_only s2 s3"
    using random_randint_ok[of 100 250 s2] by auto
  obtain ts1 s4 where 4: "repeat (nat n1) (exploited_phase1_txn acc) s3 = Inr ((), s4)"
      "appended s3 s4 ts1" "list_all (labelled acc 0 ''exploited'' 0 90 False) ts1"
    using repeat_all_ok[of "exploited_phase1_txn acc" "labelled acc 0 ''exploited'' 0 90 False"
        "nat n1" s3] exploited_phase1_txn_ok by blast
  obtain td s5 where 5: "random_randint 91 120 s4 = Inr (td, s5)" "91 \<le> td" "td \<le> 120"
      "rng_only s4 s5"
    using random_randint_ok[of 91 120 s4] by auto
  obtain n2 s6 where 6: "random_randint 10 30 s5 = Inr (n2, s6)" "rng_only s5 s6"
    using random_randint_ok[of 10 30 s5] by auto
  obtain ts2 s7 where 7: "repeat (nat n2) (exploited_phase2_txn acc dests td) s6 = Inr ((), s7)"
      "appended s6 s7 ts2" "list_all (labelled acc 1 ''exploited'' td (td + 3) True) ts2"
    using repeat_all_ok[of "exploited_phase2_txn acc dests td"
        "labelled acc 1 ''exploited'' td (td + 3) True" "nat n2" s6]
      exploited_phase2_txn_ok[OF ne] by blast
  have wk: "list_all (labelled acc 1 ''exploited'' 91 123 True) ts2"
    using 7(3) 5(2,3) by (auto simp: list_all_iff intro: labelled_mono)
  have "exploited_mule acc s = Inr ((), s7)"
    by (simp only: exploited_mule_def bnd_def 1(1) 2(1) 3(1) 4(1) 5(1) 6(1) 7(1)
        sum.case prod.case)
  moreover have "appended s4 s7 ts2"
    using 5(4) 6(2) 7(2) by (blast intro: rng_only_appended)
  then have "appended s s7 (ts1 @ ts2)"
    using 1(4) 2(3) 3(2) appended_trans[OF 4(2)] by (blast intro: rng_only_appended)
  moreover have "list_all (\<lambda>t. labelled acc 0 ''exploited'' 0 90 False t \<or>
                   labelled acc 1 ''exploited'' 91 123 True t) (ts1 @ ts2)"
    using 4(3) wk by (auto simp: list_all_iff)
  ultimately show ?thesis by blast
qed

lemma account_batches_rows:
  assumes "account_batches acc receivers senders bs"
  shows "list_all (labelled acc 1 ''complicit'' (TOTAL_DAYS - 60) TOTAL_DAYS True) (concat bs)"
proof -
  have "list_all2 (\<lambda>sender b. list_all (labelled acc 1 ''complicit'' (TOTAL_DAYS - 60) TOTAL_DAYS True) b)
      senders bs"
    using assms unfolding account_batches_def
    by (auto simp: sender_batch_def list_all_iff elim!: list_all2_mono)
  then show ?thesis by (rule list_all2_concat)
qed

lemma row_okI:
  "acc \<in> set NORMAL_IDS \<Longrightarrow> labelled acc 0 ''none'' 0 TOTAL_DAYS False t \<Longrightarrow> row_ok t"
  "acc \<in> set COMPLICIT_MULES \<Longrightarrow>
     labelled acc 1 ''complicit'' (TOTAL_DAYS - 60) TOTAL_DAYS True t \<Longrightarrow> row_ok t"
  "acc \<in> set RECRUITED_MULES \<Longrightarrow> labelled acc 0 ''recruited'' 0 60 False t \<Longrightarrow> row_ok t"
  "acc \<in> set RECRUITED_MULES \<Longrightarrow> labelled acc 1 ''recruited'' 61 TOTAL_DAYS True t \<Longrightarrow> row_ok t"
  "acc \<in> set EXPLOITED_MULES \<Longrightarrow> labelled acc 0 ''exploited'' 0 90 False t \<Longrightarrow> row_ok t"
  "acc \<in> set EXPLOITED_MULES \<Longrightarrow> labelled acc 1 ''exploited'' 91 123 True t \<Longrightarrow> row_ok t"
  unfolding row_ok_def labelled_def by simp_all

lemma normal_loop_ok:
  assumes "set xs \<subseteq> set NORMAL_IDS"
  shows "\<exists>ts s'. for_each xs normal_account s = Inr ((), s') \<and> appended s s' ts \<and>
     list_all row_ok ts"
proof (rule for_each_all_ok)
  fix x s
  assume "x \<in> set xs"
  then have x: "x \<in> set NORMAL_IDS" using assms by auto
  obtain ts s' where 1: "normal_account x s = Inr ((), s')" "appended s s' ts"
      "list_all (labelled x 0 ''none'' 0 TOTAL_DAYS False) ts"
    using normal_account_ok by blast
  have "list_all row_ok ts"
    using 1(3) by (rule list_all_mono) (use x in \<open>auto intro: row_okI\<close>)
  then show "\<exists>b s'. normal_account x s = Inr ((), s') \<and> appended s s' b \<and> list_all row_ok b"
    using 1(1,2) by blast
qed

lemma complicit_loop_ok:
  "\<exists>ts s'. for_each COMPLICIT_MULES complicit_mule s = Inr ((), s') \<and> appended s s' ts \<and>
     list_all row_ok ts"
proof (rule for_each_all_ok)
  fix x s
  assume x: "x \<in> set COMPLICIT_MULES"
  obtain receivers senders bs s' where 1: "complicit_mule x s = Inr ((), s')"
      "appended s s' (concat bs)" "account_batches x receivers senders bs"
    using complicit_mule_ok by blast
  have "list_all row_ok (concat bs)"
    using account_batches_rows[OF 1(3)] by (rule list_all_mono) (use x in \<open>auto intro: row_okI\<close>)
  then show "\<exists>b s'. complicit_mule x s = Inr ((), s') \<and> appended s s' b \<and> list_all row_ok b"
    using 1(1,2) by blast
qed

lemma recruited_loop_ok:
  "\<exists>ts s'. for_each RECRUITED_MULES recruited_mule s = Inr ((), s') \<and> appended s s' ts \<and>
     list_all row_ok ts"
proof (rule for_each_all_ok)
  fix x s
  assume x: "x \<in> set RECRUITED_MULES"
  obtain ts s' where 1: "recruited_mule x s = Inr ((), s')" "appended s s' ts"
      "list_all (\<lambda>t. labelled x 0 ''recruited'' 0 60 False t \<or>
                   labelled x 1 ''recruited'' 61 TOTAL_DAYS True t) ts"
    using recruited_mule_ok by blast
  have "list_all row_ok ts"
    using 1(3) by (rule list_all_mono) (use x in \<open>auto intro: row_okI\<close>)
  then show "\<exists>b s'. recruited_mule x s = Inr ((), s') \<and> appended s s' b \<and> list_all row_ok b"
    using 1(1,2) by blast
qed

lemma exploited_loop_ok:
  "\<exists>ts s'. for_each EXPLOITED_MULES exploited_mule s = Inr ((), s') \<and> appended s s' ts \<and>
     list_all row_ok ts"
proof (rule for_each_all_ok)
  fix x s
  assume x: "x \<in> set EXPLOITED_MULES"
  obtain ts s' where 1: "exploited_mule x s = Inr ((), s')" "appended s s' ts"
      "list_all (\<lambda>t. labelled x 0 ''exploited'' 0 90 False t \<or>
                   labelled x 1 ''exploited'' 91 123 True t) ts"
    using exploited_mule_ok by blast
  have "list_all row_ok ts"
    using 1(3) by (rule list_all_mono) (use x in \<open>auto intro: row_okI\<close>)
  then show "\<exists>b s'. exploited_mule x s = Inr ((), s') \<and> appended s s' b \<and> list_all row_ok b"
    using 1(1,2) by blast
qed

lemma mule_loops_ok:
  "\<exists>ts s'. bnd (for_each COMPLICIT_MULES complicit_mule) (\<lambda>_.
            bnd (for_each RECRUITED_MULES recruited_mule) (\<lambda>_.
            for_each EXPLOITED_MULES exploited_mule)) s = Inr ((), s') \<and>
     appended s s' ts \<and> list_all row_ok ts"
proof -
  obtain ts1 s1 where 1: "for_each COMPLICIT_MULES complicit_mule s = Inr ((), s1)"
      "appended s s1 ts1" "list_all row_ok ts1"
    using complicit_loop_ok by blast
  obtain ts2 s2 where 2: "for_each RECRUITED_MULES recruited_mule s1 = Inr ((), s2)"
      "appended s1 s2 ts2" "list_all row_ok ts2"
    using recruited_loop_ok by blast
  obtain ts3 s3 where 3: "for_each EXPLOITED_MULES exploited_mule s2 = Inr ((), s3)"
      "appended s2 s3 ts3" "list_all row_ok ts3"
    using exploited_loop_ok by blast
  have "bnd (for_each COMPLICIT_MULES complicit_mule) (\<lambda>_.
            bnd (for_each RECRUITED_MULES recruited_mule) (\<lambda>_.
            for_each EXPLOITED_MULES exploited_mule)) s = Inr ((), s3)"
    by (simp only: bnd_def 1(1) 2(1) 3(1) sum.case prod.case)
  moreover have "appended s s3 (ts1 @ ts2 @ ts3)"
    using appended_trans[OF 1(2) appended_trans[OF 2(2) 3(2)]] .
  moreover have "list_all row_ok (ts1 @ ts2 @ ts3)"
    using 1(3) 2(3) 3(3) by simp
  ultimately show ?thesis by blast
qed

lemma main_ok:
  "\<exists>ts s'. main s = Inr ((), s') \<and> appended s s' ts \<and> list_all row_ok ts"
proof -
  obtain ts1 s1 where 1: "for_each NORMAL_IDS normal_account s = Inr ((), s1)"
      "appended s s1 ts1" "list_all row_ok ts1"
    using normal_loop_ok[of NORMAL_IDS s] by blast
  obtain ts2 s2 where 2: "bnd (for_each COMPLICIT_MULES complicit_mule) (\<lambda>_.
            bnd (for_each RECRUITED_MULES recruited_mule) (\<lambda>_.
            for_each EXPLOITED_MULES exploited_mule)) s1 = Inr ((), s2)"
      "appended s1 s2 ts2" "list_all row_ok ts2"
    using mule_loops_ok by blast
  have "main s = Inr ((), s2)"
    unfolding main_def by (subst bnd_def) (simp only: 1(1) 2(1) sum.case prod.case)
  moreover have "appended s s2 (ts1 @ ts2)" using appended_trans[OF 1(2) 2(2)] .
  moreover have "list_all row_ok (ts1 @ ts2)" using 1(3) 2(3) by simp
  ultimately show ?thesis by blast
qed

lemma run_ok:
  "\<exists>ts. run py np = Inr ts \<and> list_all row_ok ts \<and>
     map txn_id ts = map txn_id_of [1..<1 + length ts]"
proof -
  obtain ts s' where 1: "main (init_state py np) = Inr ((), s')"
      "appended (init_state py np) s' ts" "list_all row_ok ts"
    using main_ok by blast
  have "transactions s' = ts" "map txn_id ts = map txn_id_of [1..<1 + length ts]"
    using 1(2) by (simp_all add: appended_def init_state_def)
  then show ?thesis using 1(1,3) by (simp add: run_def)
qed

lemma first_txn_emitted:
  "emitted (normal_txn ''ACC00001'' ((init_state (tape []) (tape []))\<lparr>py_pos := 1\<rparr>)) = [first_row]"
  by code_simp

lemma hd_NORMAL_IDS: "hd NORMAL_IDS = ''ACC00001''"
  by code_simp

lemma run_zero_first: "\<exists>ts. run (tape []) (tape []) = Inr (first_row # ts)"
proof -
  define s0 where "s0 = init_state (tape []) (tape [])"
  define s0' where "s0' = s0\<lparr>py_pos := 1\<rparr>"
  have r: "random_randint 200 600 s0 = Inr (200, s0')"
    by (simp add: random_randint_def bnd_def py_raw_def ret_def init_state_def tape_def
        s0_def s0'_def)
  obtain t s1 where 1: "normal_txn ''ACC00001'' s0' = Inr ((), s1)" "appended s0' s1 [t]"
    using normal_txn_ok by blast
  have "transactions s1 = [first_row]"
    using first_txn_emitted 1(1) by (simp add: s0'_def s0_def emitted_def)
  then have t: "t = first_row"
    using 1(2) by (simp add: appended_def s0'_def s0_def init_state_def)
  obtain ts2 s2 where 2: "repeat 199 (normal_txn ''ACC00001'') s1 = Inr ((), s2)"
      "appended s1 s2 ts2"
    using repeat_all_ok[of "normal_txn ''ACC00001''" _ 199 s1] normal_txn_ok by blast
  have rep: "repeat (Suc 199) (normal_txn ''ACC00001'') s0' = Inr ((), s2)"
    by (simp only: repeat.simps bnd_def 1(1) 2(1) sum.case prod.case)
  have "nat 200 = Suc 199" by simp
  then have "repeat (nat 200) (normal_txn ''ACC00001'') s0' = Inr ((), s2)"
    using rep by (simp only:)
  then have acc1: "normal_account ''ACC00001'' s0 = Inr ((), s2)"
    by (simp only: normal_account_def bnd_def r sum.case prod.case)
  have "set (tl NORMAL_IDS) \<subseteq> set NORMAL_IDS"
    using NORMAL_IDS_nonempty by (metis list.set_sel(2) subsetI)
  then obtain ts3 s3 where 3: "for_each (tl NORMAL_IDS) normal_account s2 = Inr ((), s3)"
      "appended s2 s3 ts3"
    using normal_loop_ok by blast
  have "NORMAL_IDS = ''ACC00001'' # tl NORMAL_IDS"
    using NORMAL_IDS_nonempty hd_NORMAL_IDS by (metis list.collapse)
  then have "for_each NORMAL_IDS normal_account s0 = bnd (normal_account ''ACC00001'')
      (\<lambda>_. for_each (tl NORMAL_IDS) normal_account) s0"
    by (metis for_each.simps(2))
  then have loop: "for_each NORMAL_IDS normal_account s0 = Inr ((), s3)"
    by (simp add: bnd_def acc1 3(1))
  obtain ts4 s4 where 4: "bnd (for_each COMPLICIT_MULES complicit_mule) (\<lambda>_.
            bnd (for_each RECRUITED_MULES recruited_mule) (\<lambda>_.
            for_each EXPLOITED_MULES exploited_mule)) s3 = Inr ((), s4)"
      "appended s3 s4 ts4"
    using mule_loops_ok by blast
  have "main s0 = Inr ((), s4)"
    unfolding main_def by (subst bnd_def) (simp only: loop 4(1) sum.case prod.case)
  moreover have "transactions s4 = first_row # ts2 @ ts3 @ ts4"
    using 1(2) 2(2) 3(2) 4(2) t by (simp add: appended_def s0'_def s0_def init_state_def)
  ultimately show ?thesis by (simp add: run_def s0_def)
qed

lemma ordinal_END_DATE: "ordinal END_DATE = ordinal START_DATE + TOTAL_DAYS"
  by code_simp

lemma seconds_START_DATE: "seconds START_DATE = 0"
  by (simp add: START_DATE_def datetime_ymd_def)

lemma row_ok_ts_in: "row_ok t \<Longrightarrow> ts_in 0 TOTAL_DAYS True (timestamp t)"
  unfolding row_ok_def labelled_def ts_in_def hour_ok_def TOTAL_DAYS_eq by auto

lemma row_ok_day_hours: "row_ok t \<Longrightarrow> is_mule t = 0 \<Longrightarrow> hour_ok False (hour_of (timestamp t))"
  unfolding row_ok_def labelled_def ts_in_def by auto

lemma NORMAL_IDS_hd: "x \<in> set NORMAL_IDS \<Longrightarrow> hd x = CHR ''A''"
  by (auto simp: NORMAL_IDS_def)

lemma MULE_IDS_hd: "x \<in> set MULE_IDS \<Longrightarrow> hd x = CHR ''M''"
  by (auto simp: MULE_IDS_def)

lemma normal_not_mule: "x \<in> set NORMAL_IDS \<Longrightarrow> x \<in> set MULE_IDS \<Longrightarrow> False"
  using NORMAL_IDS_hd MULE_IDS_hd by fastforce

lemma distinct_MULE_IDS: "distinct MULE_IDS"
  by code_simp

lemma mule_groups_subset:
  "set COMPLICIT_MULES \<subseteq> set MULE_IDS" "set RECRUITED_MULES \<subseteq> set MULE_IDS"
  "set EXPLOITED_MULES \<subseteq> set MULE_IDS"
  unfolding COMPLICIT_MULES_def RECRUITED_MULES_def EXPLOITED_MULES_def slice_def
  by (meson set_take_subset set_drop_subset subset_trans)+

lemma mule_groups_disjoint:
  "x \<in> set COMPLICIT_MULES \<Longrightarrow> x \<in> set RECRUITED_MULES \<Longrightarrow> False"
  "x \<in> set COMPLICIT_MULES \<Longrightarrow> x \<in> set EXPLOITED_MULES \<Longrightarrow> False"
  "x \<in> set RECRUITED_MULES \<Longrightarrow> x \<in> set EXPLOITED_MULES \<Longrightarrow> False"
proof -
  have d: "distinct (drop 10 MULE_IDS)" using distinct_MULE_IDS by simp
  have 1: "set (take 10 MULE_IDS) \<inter> set (drop 10 MULE_IDS) = {}"
    using set_take_disj_set_drop_if_distinct[OF distinct_MULE_IDS, of 10 10] by simp
  have 2: "set (take 10 MULE_IDS) \<inter> set (drop 20 MULE_IDS) = {}"
    using set_take_disj_set_drop_if_distinct[OF distinct_MULE_IDS, of 10 20] by simp
  have 3: "set (take 10 (drop 10 MULE_IDS)) \<inter> set (drop 10 (drop 10 MULE_IDS)) = {}"
    using set_take_disj_set_drop_if_distinct[OF d, of 10 10] by simp
  have r: "set RECRUITED_MULES \<subseteq> set (drop 10 MULE_IDS)"
    and e: "set EXPLOITED_MULES \<subseteq> set (drop 20 MULE_IDS)"
    by (simp_all add: RECRUITED_MULES_def EXPLOITED_MULES_def slice_def set_take_subset)
  have c: "COMPLICIT_MULES = take 10 MULE_IDS" by (simp add: COMPLICIT_MULES_def slice_def)
  show "x \<in> set COMPLICIT_MULES \<Longrightarrow> x \<in> set RECRUITED_MULES \<Longrightarrow> False"
    using 1 r c by auto
  show "x \<in> set COMPLICIT_MULES \<Longrightarrow> x \<in> set EXPLOITED_MULES \<Longrightarrow> False"
    using 2 e c by auto
  show "x \<in> set RECRUITED_MULES \<Longrightarrow> x \<in> set EXPLOITED_MULES \<Longrightarrow> False"
    using 3 e by (auto simp: RECRUITED_MULES_def slice_def)
qed

lemma row_ok_cases:
  assumes "row_ok t"
  obtains
    (normal) "account_id t \<in> set NORMAL_IDS" "is_mule t = 0" "mule_type t = ''none''"
  | (complicit) "account_id t \<in> set COMPLICIT_MULES" "is_mule t = 1"
      "mule_type t = ''complicit''" "121 \<le> day_of t"
  | (recruited1) "account_id t \<in> set RECRUITED_MULES" "is_mule t = 0"
      "mule_type t = ''recruited''" "day_of t \<le> 60"
  | (recruited2) "account_id t \<in> set RECRUITED_MULES" "is_mule t = 1"
      "mule_type t = ''recruited''" "61 \<le> day_of t"
  | (exploited1) "account_id t \<in> set EXPLOITED_MULES" "is_mule t = 0"
      "mule_type t = ''exploited''" "day_of t \<le> 90"
  | (exploited2) "account_id t \<in> set EXPLOITED_MULES" "is_mule t = 1"
      "mule_type t = ''exploited''" "91 \<le> day_of t"
proof -
  from assms consider
      (a) "account_id t \<in> set NORMAL_IDS"
          "labelled (account_id t) 0 ''none'' 0 TOTAL_DAYS False t"
    | (b) "account_id t \<in> set COMPLICIT_MULES"
          "labelled (account_id t) 1 ''complicit'' (TOTAL_DAYS - 60) TOTAL_DAYS True t"
    | (c) "account_id t \<in> set RECRUITED_MULES"
          "labelled (account_id t) 0 ''recruited'' 0 60 False t"
    | (d) "account_id t \<in> set RECRUITED_MULES"
          "labelled (account_id t) 1 ''recruited'' 61 TOTAL_DAYS True t"
    | (e) "account_id t \<in> set EXPLOITED_MULES"
          "labelled (account_id t) 0 ''exploited'' 0 90 False t"
    | (f) "account_id t \<in> set EXPLOITED_MULES"
          "labelled (account_id t) 1 ''exploited'' 91 123 True t"
    unfolding row_ok_def by blast
  then show thesis
  proof cases
    case a
    then show thesis by (intro normal) (simp_all add: labelled_def)
  next
    case b
    then show thesis
      by (intro complicit) (simp_all add: labelled_def ts_in_def day_of_def TOTAL_DAYS_eq)
  next
    case c
    then show thesis
      by (intro recruited1) (simp_all add: labelled_def ts_in_def day_of_def)
  next
    case d
    then show thesis
      by (intro recruited2) (simp_all add: labelled_def ts_in_def day_of_def)
  next
    case e
    then show thesis
      by (intro exploited1) (simp_all add: labelled_def ts_in_def day_of_def)
  next
    case f
    then show thesis
      by (intro exploited2) (simp_all add: labelled_def ts_in_def day_of_def)
  qed
qed

lemma row_ok_label:
  assumes "row_ok t"
  shows "(is_mule t = 1 \<longleftrightarrow> account_id t \<in> set MULE_IDS \<and> mule_rule_row t) \<and>
         (is_mule t = 0 \<or> is_mule t = 1) \<and>
         (account_id t \<in> set NORMAL_IDS \<longrightarrow> is_mule t = 0 \<and> mule_type t = ''none'') \<and>
         (history_row t \<longrightarrow> is_mule t = 0 \<and> mule_type t \<noteq> ''none'')"
  using assms
proof (cases rule: row_ok_cases)
  case normal
  then show ?thesis
    using normal_not_mule[of "account_id t"] mule_groups_subset
    by (auto simp: mule_rule_row_def history_row_def)
next
  case complicit
  then show ?thesis
    using normal_not_mule[of "account_id t"] mule_groups_subset
      mule_groups_disjoint[of "account_id t"]
    by (auto simp: mule_rule_row_def history_row_def)
next
  case recruited1
  then show ?thesis
    using normal_not_mule[of "account_id t"] mule_groups_subset
      mule_groups_disjoint[of "account_id t"]
    by (auto simp: mule_rule_row_def history_row_def)
next
  case recruited2
  then show ?thesis
    using normal_not_mule[of "account_id t"] mule_groups_subset
      mule_groups_disjoint[of "account_id t"]
    by (auto simp: mule_rule_row_def history_row_def)
next
  case exploited1
  then show ?thesis
    using normal_not_mule[of "account_id t"] mule_groups_subset
      mule_groups_disjoint[of "account_id t"]
    by (auto simp: mule_rule_row_def history_row_def)
next
  case exploited2
  then show ?thesis
    using normal_not_mule[of "account_id t"] mule_groups_subset
      mule_groups_disjoint[of "account_id t"]
    by (auto simp: mule_rule_row_def history_row_def)
qed

lemma digit_val_digit_char: "d < 10 \<Longrightarrow> digit_val (digit_char d) = d"
proof -
  assume "d < 10"
  then have "d = 0 \<or> d = 1 \<or> d = 2 \<or> d = 3 \<or> d = 4 \<or> d = 5 \<or> d = 6 \<or> d = 7 \<or> d = 8 \<or> d = 9"
    by arith
  then show ?thesis by (auto simp: digit_val_def digit_char_def)
qed

lemma parse_str: "foldl (\<lambda>n c. 10 * n + digit_val c) 0 (str n) = n"
proof (induction n rule: str.induct)
  case (1 n)
  show ?case
  proof (cases "n < 10")
    case True
    then show ?thesis by (simp add: str.simps[of n] digit_val_digit_char)
  next
    case False
    then have "foldl (\<lambda>n c. 10 * n + digit_val c) 0 (str (n div 10)) = n div 10"
      using 1 by simp
    then show ?thesis using False by (simp add: str.simps[of n] digit_val_digit_char)
  qed
qed

lemma parse_zeros: "foldl (\<lambda>n c. 10 * n + digit_val c) 0 (replicate k (CHR ''0'')) = 0"
  by (induction k) (simp_all add: digit_val_def)

lemma seq_no_txn_id_of: "seq_no (txn_id_of n) = n"
  by (simp add: seq_no_def txn_id_of_def zfill_def parse_zeros parse_str)

lemma row_ok_window:
  assumes "row_ok t"
  shows "dt_le START_DATE (timestamp t) \<and> ordinal (timestamp t) \<le> ordinal END_DATE \<and>
         0 \<le> seconds (timestamp t) \<and> seconds (timestamp t) < 86400"
proof -
  have "ts_in 0 TOTAL_DAYS True (timestamp t)" using assms by (rule row_ok_ts_in)
  then show ?thesis
    by (auto simp: ts_in_def dt_le_def ordinal_END_DATE seconds_START_DATE)
qed

lemma row_ok_hours:
  assumes "row_ok t"
  shows "hour_ok True (hour_of (timestamp t)) \<and> hour_of (timestamp t) \<notin> {5, 6, 7} \<and>
         (is_mule t = 0 \<longrightarrow> hour_ok False (hour_of (timestamp t)))"
proof -
  have "ts_in 0 TOTAL_DAYS True (timestamp t)" using assms by (rule row_ok_ts_in)
  then have "hour_ok True (hour_of (timestamp t))" by (simp add: ts_in_def)
  moreover from this have "hour_of (timestamp t) \<notin> {5, 6, 7}" by (auto simp: hour_ok_def)
  ultimately show ?thesis using row_ok_day_hours[OF assms] by blast
qed

text \<open>
  Claim C1. In every run, each emitted row has \<open>is_mule\<close> 0 or 1, and it is 1 exactly
  when the row's account is a mule account and the row comes from a mule-behaviour rule:
  any row of a complicit mule, a row of a recruited mule dated day 61 or later, a row of
  an exploited mule dated day 91 or later (Phase 1 of a recruited mule draws days 0 to 60
  and its Phase 2 days 61 onwards; Phase 1 of an exploited mule draws days 0 to 90 and its
  Phase 2 starts at the takeover day, at least 91). Rows of normal accounts carry
  \<open>is_mule = 0\<close> and \<open>mule_type = none\<close>; Phase-1 rows of recruited and exploited
  mules carry \<open>is_mule = 0\<close> with a \<open>mule_type\<close> other than \<open>none\<close>.
\<close>

theorem is_mule_marks_mule_rules:
  "\<exists>ts. run py np = Inr ts \<and>
     (\<forall>t \<in> set ts.
        (is_mule t = 1 \<longleftrightarrow> account_id t \<in> set MULE_IDS \<and> mule_rule_row t) \<and>
        (is_mule t = 0 \<or> is_mule t = 1) \<and>
        (account_id t \<in> set NORMAL_IDS \<longrightarrow> is_mule t = 0 \<and> mule_type t = ''none'') \<and>
        (history_row t \<longrightarrow> is_mule t = 0 \<and> mule_type t \<noteq> ''none''))"
proof -
  obtain ts where ts: "run py np = Inr ts" "list_all row_ok ts"
    using run_ok by blast
  have "\<forall>t \<in> set ts.
        (is_mule t = 1 \<longleftrightarrow> account_id t \<in> set MULE_IDS \<and> mule_rule_row t) \<and>
        (is_mule t = 0 \<or> is_mule t = 1) \<and>
        (account_id t \<in> set NORMAL_IDS \<longrightarrow> is_mule t = 0 \<and> mule_type t = ''none'') \<and>
        (history_row t \<longrightarrow> is_mule t = 0 \<and> mule_type t \<noteq> ''none'')"
    using ts(2) row_ok_label unfolding list_all_iff by blast
  then show ?thesis using ts(1) by blast
qed

theorem is_mule_marks_mule_rules_witness:
  "\<exists>ts. run (tape []) (tape []) = Inr (first_row # ts) \<and>
     account_id first_row \<in> set NORMAL_IDS \<and> is_mule first_row = 0 \<and>
     mule_type first_row = ''none''"
proof -
  obtain ts where ts: "run (tape []) (tape []) = Inr (first_row # ts)"
    using run_zero_first by blast
  have mem: "account_id first_row \<in> set NORMAL_IDS"
    using acc1_mem by (simp add: first_row_def)
  from is_mule_marks_mule_rules[of "tape []" "tape []"] ts
  have "account_id first_row \<in> set NORMAL_IDS \<longrightarrow>
      is_mule first_row = 0 \<and> mule_type first_row = ''none''"
    by auto
  then show ?thesis using ts mem by blast
qed

lemma late_txn_emitted:
  "emitted (normal_txn ''ACC00001'' ((init_state (tape [0, 181]) (tape []))\<lparr>py_pos := 1\<rparr>)) = [late_row]"
  by code_simp

lemma run_first_row:
  assumes "emitted (normal_txn ''ACC00001'' ((init_state py np)\<lparr>py_pos := 1\<rparr>)) = [t]"
  shows "\<exists>ts. run py np = Inr (t # ts)"
proof -
  define s0 where "s0 = init_state py np"
  define s0' where "s0' = s0\<lparr>py_pos := 1\<rparr>"
  define n where "n = 200 + int (py 0 mod 401)"
  have r: "random_randint 200 600 s0 = Inr (n, s0')"
    by (simp add: random_randint_def bnd_def py_raw_def ret_def init_state_def
        s0_def s0'_def n_def)
  obtain t' s1 where 1: "normal_txn ''ACC00001'' s0' = Inr ((), s1)" "appended s0' s1 [t']"
    using normal_txn_ok by blast
  have "transactions s1 = [t]"
    using assms 1(1) by (simp add: s0'_def s0_def emitted_def)
  then have t: "t' = t"
    using 1(2) by (simp add: appended_def s0'_def s0_def init_state_def)
  define m where "m = nat n - 1"
  have nm: "nat n = Suc m" by (simp add: m_def n_def)
  obtain ts2 s2 where 2: "repeat m (normal_txn ''ACC00001'') s1 = Inr ((), s2)"
      "appended s1 s2 ts2"
    using repeat_all_ok[of "normal_txn ''ACC00001''" _ m s1] normal_txn_ok by blast
  have "repeat (Suc m) (normal_txn ''ACC00001'') s0' = Inr ((), s2)"
    by (simp only: repeat.simps bnd_def 1(1) 2(1) sum.case prod.case)
  then have "repeat (nat n) (normal_txn ''ACC00001'') s0' = Inr ((), s2)"
    by (simp only: nm)
  then have acc1: "normal_account ''ACC00001'' s0 = Inr ((), s2)"
    by (simp only: normal_account_def bnd_def r sum.case prod.case)
  have "set (tl NORMAL_IDS) \<subseteq> set NORMAL_IDS"
    using NORMAL_IDS_nonempty by (metis list.set_sel(2) subsetI)
  then obtain ts3 s3 where 3: "for_each (tl NORMAL_IDS) normal_account s2 = Inr ((), s3)"
      "appended s2 s3 ts3"
    using normal_loop_ok by blast
  have "NORMAL_IDS = ''ACC00001'' # tl NORMAL_IDS"
    using NORMAL_IDS_nonempty hd_NORMAL_IDS by (metis list.collapse)
  then have "for_each NORMAL_IDS normal_account s0 = bnd (normal_account ''ACC00001'')
      (\<lambda>_. for_each (tl NORMAL_IDS) normal_account) s0"
    by (metis for_each.simps(2))
  then have loop: "for_each NORMAL_IDS normal_account s0 = Inr ((), s3)"
    by (simp add: bnd_def acc1 3(1))
  obtain ts4 s4 where 4: "bnd (for_each COMPLICIT_MULES complicit_mule) (\<lambda>_.
            bnd (for_each RECRUITED_MULES recruited_mule) (\<lambda>_.
            for_each EXPLOITED_MULES exploited_mule)) s3 = Inr ((), s4)"
      "appended s3 s4 ts4"
    using mule_loops_ok by blast
  have "main s0 = Inr ((), s4)"
    unfolding main_def by (subst bnd_def) (simp only: loop 4(1) sum.case prod.case)
  moreover have "transactions s4 = t # ts2 @ ts3 @ ts4"
    using 1(2) 2(2) 3(2) 4(2) t by (simp add: appended_def s0'_def s0_def init_state_def)
  ultimately show ?thesis by (simp add: run_def s0_def)
qed

lemma emitted_main_run: "run py np = Inr ts \<Longrightarrow> emitted (main (init_state py np)) = ts"
  by (auto simp: run_def emitted_def split: sum.splits)

text \<open>
  Claim C3, as stated, asks for every timestamp to lie within the configured bounds
  \<open>START_DATE\<close> and \<open>END_DATE\<close>, inclusive. \<open>END_DATE\<close> is midnight at the start
  of 2024-06-30, \<open>rand_ts\<close> draws the day from 0 to \<open>TOTAL_DAYS\<close> inclusive and then
  adds a time of day, so a row drawn on day 181 lies after \<open>END_DATE\<close>: with the draws
  0 (200 transactions) and 181 (the day) the first row of the run is dated
  2024-06-30 08:00:00.
\<close>

theorem timestamp_after_END_DATE:
  "late_row \<in> set (emitted (main (init_state (tape [0, 181]) (tape [])))) \<and>
   ordinal (timestamp late_row) = ordinal END_DATE \<and> seconds (timestamp late_row) = 28800 \<and>
   \<not> dt_le (timestamp late_row) END_DATE"
proof -
  obtain ts where "run (tape [0, 181]) (tape []) = Inr (late_row # ts)"
    using run_first_row[OF late_txn_emitted] by blast
  then have "late_row \<in> set (emitted (main (init_state (tape [0, 181]) (tape []))))"
    using emitted_main_run by fastforce
  moreover have "ordinal END_DATE = 739067" "seconds END_DATE = 0" by code_simp+
  ultimately show ?thesis by (simp add: late_row_def dt_le_def)
qed

text \<open>
  Claim C3, amended. In every run, no emitted row has a timestamp earlier than
  \<open>START_DATE\<close> (2024-01-01 00:00:00), and every timestamp falls on a date no later
  than the date of \<open>END_DATE\<close> (2024-06-30), at a time of that day: it is earlier
  than 2024-07-01 00:00:00.
\<close>

theorem timestamps_within_window:
  "\<exists>ts. run py np = Inr ts \<and>
     (\<forall>t \<in> set ts. dt_le START_DATE (timestamp t) \<and>
        ordinal (timestamp t) \<le> ordinal END_DATE \<and>
        0 \<le> seconds (timestamp t) \<and> seconds (timestamp t) < 86400)"
proof -
  obtain ts where ts: "run py np = Inr ts" "list_all row_ok ts"
    using run_ok by blast
  have "\<forall>t \<in> set ts. dt_le START_DATE (timestamp t) \<and>
        ordinal (timestamp t) \<le> ordinal END_DATE \<and>
        0 \<le> seconds (timestamp t) \<and> seconds (timestamp t) < 86400"
    using ts(2) row_ok_window unfolding list_all_iff by blast
  then show ?thesis using ts(1) by blast
qed

theorem timestamps_within_window_witness:
  "\<exists>ts. run (tape []) (tape []) = Inr (first_row # ts) \<and>
     dt_le START_DATE (timestamp first_row) \<and>
     ordinal (timestamp first_row) \<le> ordinal END_DATE \<and>
     seconds (timestamp first_row) = 28800"
proof -
  obtain ts where ts: "run (tape []) (tape []) = Inr (first_row # ts)"
    using run_zero_first by blast
  from timestamps_within_window[of "tape []" "tape []"] ts
  have "dt_le START_DATE (timestamp first_row) \<and>
      ordinal (timestamp first_row) \<le> ordinal END_DATE"
    by auto
  moreover have "seconds (timestamp first_row) = 28800" by (simp add: first_row_def)
  ultimately show ?thesis using ts by blast
qed

text \<open>
  Claim C9. In every run, the identifiers of the emitted rows, in emission order, are
  \<open>TXN\<close> followed by the zero-padded numbers 1, 2, 3, ...: the sequence numbers read
  back from them are strictly increasing along the emission order, and no identifier
  occurs twice.
\<close>

theorem txn_ids_sequential:
  "\<exists>ts. run py np = Inr ts \<and>
     map txn_id ts = map txn_id_of [1..<1 + length ts] \<and>
     map (seq_no \<circ> txn_id) ts = [1..<1 + length ts] \<and>
     sorted_wrt (<) (map (seq_no \<circ> txn_id) ts) \<and>
     distinct (map txn_id ts)"
proof -
  obtain ts where ts: "run py np = Inr ts"
      "map txn_id ts = map txn_id_of [1..<1 + length ts]"
    using run_ok by blast
  have "map (seq_no \<circ> txn_id) ts = map seq_no (map txn_id ts)" by simp
  also have "\<dots> = map (seq_no \<circ> txn_id_of) [1..<1 + length ts]" by (simp add: ts(2))
  also have "\<dots> = [1..<1 + length ts]" by (simp add: seq_no_txn_id_of comp_def)
  finally have nums: "map (seq_no \<circ> txn_id) ts = [1..<1 + length ts]" .
  have "inj txn_id_of" by (rule inj_on_inverseI[of _ seq_no]) (rule seq_no_txn_id_of)
  then have "distinct (map txn_id_of [1..<1 + length ts])"
    by (simp add: distinct_map inj_on_def)
  then have "distinct (map txn_id ts)" by (simp add: ts(2))
  moreover have "sorted_wrt (<) (map (seq_no \<circ> txn_id) ts)"
    unfolding nums by (rule sorted_wrt_upt)
  ultimately show ?thesis using ts nums by blast
qed

text \<open>
  Claim C10. In every run, the hour of every emitted row's timestamp lies in 8 to 22 or
  in the night band 23, 0, 1, 2, 3, 4, and is never 5, 6 or 7; rows generated without
  night bias (those with \<open>is_mule = 0\<close>) have their hour in 8 to 22.
\<close>

theorem hours_in_day_or_night_band:
  "\<exists>ts. run py np = Inr ts \<and>
     (\<forall>t \<in> set ts. hour_ok True (hour_of (timestamp t)) \<and>
        hour_of (timestamp t) \<notin> {5, 6, 7} \<and>
        (is_mule t = 0 \<longrightarrow> hour_ok False (hour_of (timestamp t))))"
proof -
  obtain ts where ts: "run py np = Inr ts" "list_all row_ok ts"
    using run_ok by blast
  have "\<forall>t \<in> set ts. hour_ok True (hour_of (timestamp t)) \<and>
        hour_of (timestamp t) \<notin> {5, 6, 7} \<and>
        (is_mule t = 0 \<longrightarrow> hour_ok False (hour_of (timestamp t)))"
    using ts(2) row_ok_hours unfolding list_all_iff by blast
  then show ?thesis using ts(1) by blast
qed

theorem hours_in_day_or_night_band_witness:
  "\<exists>ts. run (tape []) (tape []) = Inr (first_row # ts) \<and>
     hour_of (timestamp first_row) = 8 \<and> hour_ok False (hour_of (timestamp first_row))"
proof -
  obtain ts where ts: "run (tape []) (tape []) = Inr (first_row # ts)"
    using run_zero_first by blast
  have z: "is_mule first_row = 0" by (simp add: first_row_def)
  from hours_in_day_or_night_band[of "tape []" "tape []"] ts
  have "is_mule first_row = 0 \<longrightarrow> hour_ok False (hour_of (timestamp first_row))"
    by auto
  then have "hour_ok False (hour_of (timestamp first_row))" using z by blast
  moreover have "hour_of (timestamp first_row) = 8" by (simp add: first_row_def hour_of_def)
  ultimately show ?thesis using ts by blast
qed

lemma floor_rat_numeral: "\<lfloor>(numeral a :: rat) / numeral b\<rfloor> = numeral a div numeral b"
  using floor_divide_of_int_eq[of "numeral a" "numeral b", where ?'a = rat] by simp

lemma receiver_10: "(MULE_IDS @ slice 0 15 EXTERNAL_IDS) ! 10 = ''MUL00011''"
  by code_simp

lemma receivers_len: "length MULE_IDS = 30" "length (slice 0 15 EXTERNAL_IDS) = 15"
  by (simp_all add: MULE_IDS_def N_MULE_def slice_def EXTERNAL_IDS_def N_EXTERNAL_def)

lemma MULE_IDS_nonempty: "MULE_IDS \<noteq> []"
  by (simp add: MULE_IDS_def N_MULE_def)

lemma mul11_recruited: "''MUL00011'' \<in> set RECRUITED_MULES"
  by code_simp

lemmas eval_defs = emitted_def rand_ts_def bnd_def ret_def raise_def random_random_def
  random_randint_def random_choice_def random_uniform_def round_amount_def py_raw_def
  init_state_def tape_def assign_amount_def read_amount_def add_txn_def py_round2_def
  py_round_def TOTAL_DAYS_eq Let_def floor_rat_numeral

lemma recruited_debit_example_fields:
  "map amount recruited_debit_example = [8795382 / 625]"
  "map counterparty recruited_debit_example = [''MUL00011'']"
  "map account_id recruited_debit_example = [''MUL00011'']"
  "map txn_type recruited_debit_example = [''debit'']"
  "map is_mule recruited_debit_example = [1]"
  by (simp_all add: recruited_debit_example_def recruited_phase2_txn_def eval_defs
      receivers_len receiver_10 MULE_IDS_nonempty)

lemma batch_counts:
  assumes "list_all2 (paired_batch acc receivers) senders bs" and "set senders \<subseteq> S"
  shows "length (filter (\<lambda>t. txn_type t = ''debit'' \<and> counterparty t \<in> set receivers) (concat bs)) =
         length (filter (\<lambda>t. txn_type t = ''credit'' \<and> counterparty t \<in> S) (concat bs))"
  using assms
proof (induction senders bs rule: list_all2_induct)
  case Nil
  then show ?case by simp
next
  case (Cons sender senders b bs)
  let ?D = "\<lambda>t. txn_type t = ''debit'' \<and> counterparty t \<in> set receivers"
  let ?C = "\<lambda>t. txn_type t = ''credit'' \<and> counterparty t \<in> S"
  obtain cs ds where b: "b = cs @ ds" "length ds = length cs"
      "list_all (\<lambda>t. account_id t = acc \<and> txn_type t = ''credit'' \<and> counterparty t = sender) cs"
      "list_all (\<lambda>t. account_id t = acc \<and> txn_type t = ''debit'' \<and> counterparty t \<in> set receivers) ds"
    using Cons.hyps(1) unfolding paired_batch_def by blast
  have sender: "sender \<in> S" using Cons.prems by simp
  have "filter ?D cs = []" "filter ?C cs = cs"
    using b(3) sender by (auto simp: list_all_iff filter_empty_conv filter_id_conv)
  moreover have "filter ?D ds = ds" "filter ?C ds = []"
    using b(4) by (auto simp: list_all_iff filter_empty_conv filter_id_conv)
  ultimately have "length (filter ?D b) = length (filter ?C b)"
    using b(1,2) by simp
  moreover have "length (filter ?D (concat bs)) = length (filter ?C (concat bs))"
    using Cons.IH Cons.prems by simp
  ultimately show ?case by simp
qed

lemma account_batches_paired:
  assumes "account_batches acc receivers senders bs"
  shows "list_all2 (paired_batch acc receivers) senders bs"
proof -
  have "\<And>sender b. (\<exists>cs ds. b = cs @ ds \<and>
         sender_batch acc (TOTAL_DAYS - 60) receivers sender cs ds) \<Longrightarrow>
       paired_batch acc receivers sender b"
    unfolding paired_batch_def sender_batch_def labelled_def list_all_iff by fastforce
  then show ?thesis
    using assms unfolding account_batches_def by (blast intro: list_all2_mono)
qed


text \<open>
  Claim C6 (the code departs from it). One Phase-2 iteration of the recruited mule
  \<open>MUL00011\<close> with handler \<open>EXT00021\<close>: the draws give the amount 15131.84 (rounded to
  two places by \<open>round_amount\<close>), the debit branch, and the factor 0.93. The emitted
  debit carries the unrounded product 14072.6112, which is neither a two-place decimal nor
  a multiple of 1000: the debit branch passes \<open>amount * random.uniform(0.88, 0.98)\<close> to
  \<open>add_txn\<close> without rounding it.
\<close>

theorem recruited_debit_amount_unrounded:
  "map txn_type recruited_debit_example = [''debit''] \<and>
   map amount recruited_debit_example = [8795382 / 625] \<and>
   \<not> two_places (8795382 / 625) \<and> \<not> thousands (8795382 / 625)"
proof -
  have "\<not> two_places (8795382 / 625)"
    by (simp add: two_places_def py_round2_def py_round_def Let_def floor_rat_numeral)
  moreover have "\<not> thousands (8795382 / 625)"
    by (simp add: thousands_def py_round_def Let_def floor_rat_numeral)
  ultimately show ?thesis
    using recruited_debit_example_fields(1,4) by simp
qed

text \<open>
  Claim C7 (the code departs from it). In the same Phase-2 iteration the receiver is
  drawn from \<open>MULE_IDS + EXTERNAL_IDS[:15]\<close>, which contains the emitting account: the
  draw 10 picks \<open>MUL00011\<close>, and the recruited mule \<open>MUL00011\<close> emits a debit whose
  counterparty is itself.
\<close>

theorem recruited_debit_to_itself:
  "''MUL00011'' \<in> set RECRUITED_MULES \<and>
   map account_id recruited_debit_example = [''MUL00011''] \<and>
   map txn_type recruited_debit_example = [''debit''] \<and>
   map is_mule recruited_debit_example = [1] \<and>
   map counterparty recruited_debit_example = [''MUL00011'']"
  using mul11_recruited recruited_debit_example_fields(2,3,4,5) by simp

text \<open>
  Claim C8. From any state, the rows a complicit mule account emits are the batches of
  its victim senders (8 to 20 normal accounts), one after the other; each batch is some
  3 to 8 credits from that sender followed by as many debits to the account's criminal
  receivers (one or two of the first 20 external entities). Over the whole account the
  number of debit rows to criminal receivers equals the number of credit rows from victim
  senders.
\<close>

theorem complicit_debits_pair_with_credits:
  "\<exists>s' receivers senders bs.
     complicit_mule acc s = Inr ((), s') \<and>
     transactions s' = transactions s @ concat bs \<and>
     receivers \<noteq> [] \<and> set receivers \<subseteq> set (slice 0 20 EXTERNAL_IDS) \<and>
     8 \<le> length senders \<and> length senders \<le> 20 \<and> set senders \<subseteq> set NORMAL_IDS \<and>
     list_all2 (paired_batch acc receivers) senders bs \<and>
     length (filter (\<lambda>t. txn_type t = ''debit'' \<and> counterparty t \<in> set receivers) (concat bs)) =
     length (filter (\<lambda>t. txn_type t = ''credit'' \<and> counterparty t \<in> set senders) (concat bs))"
proof -
  obtain receivers senders bs s' where 1: "complicit_mule acc s = Inr ((), s')"
      "appended s s' (concat bs)" "account_batches acc receivers senders bs"
    using complicit_mule_ok by blast
  have p: "list_all2 (paired_batch acc receivers) senders bs"
    using 1(3) by (rule account_batches_paired)
  have "length (filter (\<lambda>t. txn_type t = ''debit'' \<and> counterparty t \<in> set receivers) (concat bs)) =
     length (filter (\<lambda>t. txn_type t = ''credit'' \<and> counterparty t \<in> set senders) (concat bs))"
    using batch_counts[OF p, of "set senders"] by simp
  moreover have "transactions s' = transactions s @ concat bs"
    using 1(2) by (simp add: appended_def)
  moreover have "receivers \<noteq> []" "set receivers \<subseteq> set (slice 0 20 EXTERNAL_IDS)"
      "8 \<le> length senders" "length senders \<le> 20" "set senders \<subseteq> set NORMAL_IDS"
    using 1(3) by (simp_all add: account_batches_def)
  ultimately show ?thesis using 1(1) p by blast
qed














end
